theory Spec2Isabelle
  imports Complex_Main "HOL-Library.Log_Nat" "HOL-Library.Multiset"
    "HOL-Library.Product_Lexorder"
begin

section \<open>Sentinel-1 example notebook: the embedding\<close>

text \<open>
  The notebook \<^verbatim>\<open>Sentinel-1_example_rgb.ipynb\<close> queries a datacube for the datasets of
  the product \<^verbatim>\<open>s1_rtc\<close>, sorts them, loads one raster with the two backscatter bands
  \<^verbatim>\<open>vv\<close> and \<^verbatim>\<open>vh\<close>, adds derived bands to it and plots them. Its code cells are
  embedded below, one definition per cell or statement. What the external libraries do
  (Python lists and dictionaries, IEEE floating-point arithmetic, xarray's elementwise
  operations and reductions, the datacube's query and load) is modelled by the
  definitions of the first subsections, from their documented behaviour.
\<close>

subsection \<open>Exceptions as values\<close>

text \<open>
  A Python exception is a value of type \<open>error\<close>; a computation that can raise has the
  type \<open>error + 'a\<close>, with \<open>Inl\<close> for the exception. \<open>LibraryError\<close> stands for an
  exception raised inside an external call (the datacube query, the load, a plotting
  call). \<open>bnd\<close> sequences two statements: the second runs only when the first returned.
\<close>

datatype error =
    IndexError
  | KeyError string
  | AttributeError string
  | TypeError
  | LibraryError string

definition bnd :: "error + 'a \<Rightarrow> ('a \<Rightarrow> error + 'b) \<Rightarrow> error + 'b" where
  "bnd m f = (case m of Inl e \<Rightarrow> Inl e | Inr v \<Rightarrow> f v)"

subsection \<open>Floating-point pixels\<close>

text \<open>
  A pixel is a binary floating-point number of the raster's dtype. A format is given by
  its precision \<open>prec\<close> (the number of significand bits, the hidden bit included) and its
  largest exponent \<open>emax\<close>; the smallest exponent of a normal number is \<open>1 - emax\<close>.
  A value is a NaN, an infinity, the negative zero, or a finite number with its
  rational value (\<open>Finite 0\<close> is the positive zero).
\<close>

record fformat =
  prec :: nat
  emax :: int

definition binary32 :: fformat where
  "binary32 = \<lparr>prec = 24, emax = 127\<rparr>"

definition binary64 :: fformat where
  "binary64 = \<lparr>prec = 53, emax = 1023\<rparr>"

definition emin :: "fformat \<Rightarrow> int" where
  "emin F = 1 - emax F"

datatype fp = NaN | PosInf | NegInf | NegZero | Finite rat

definition is_nan :: "fp \<Rightarrow> bool" where
  "is_nan x = (x = NaN)"

definition is_inf :: "fp \<Rightarrow> bool" where
  "is_inf x = (x = PosInf \<or> x = NegInf)"

definition is_zero :: "fp \<Rightarrow> bool" where
  "is_zero x = (x = NegZero \<or> x = Finite 0)"

definition is_finite :: "fp \<Rightarrow> bool" where
  "is_finite x = (\<not> is_nan x \<and> \<not> is_inf x)"

fun sign_bit :: "fp \<Rightarrow> bool" where
  "sign_bit NaN = False"
| "sign_bit PosInf = False"
| "sign_bit NegInf = True"
| "sign_bit NegZero = True"
| "sign_bit (Finite q) = (q < 0)"

fun val :: "fp \<Rightarrow> rat" where
  "val (Finite q) = q"
| "val x = 0"

definition inf_of :: "bool \<Rightarrow> fp" where
  "inf_of s = (if s then NegInf else PosInf)"

definition zero_of :: "bool \<Rightarrow> fp" where
  "zero_of s = (if s then NegZero else Finite 0)"

text \<open>
  \<open>flog2 q\<close> is the exponent of a positive rational: \<open>2 ^ flog2 q \<le> q < 2 ^ (flog2 q + 1)\<close>.
  \<open>rne\<close> rounds a rational to the nearest integer, a tie to the even one. The unit in
  the last place of a magnitude \<open>m\<close> is \<open>2 ^ ulp_exp F m\<close>, its exponent clamped at the
  smallest normal exponent, and \<open>round_mag\<close> rounds \<open>m\<close> to a multiple of that unit.
  \<open>fround\<close> rounds an exact result to the format (round to nearest, ties to even,
  gradual underflow, overflow to infinity); the flag is the sign of a zero result.
\<close>

definition flog2 :: "rat \<Rightarrow> int" where
  "flog2 q = (case quotient_of q of (a, b) \<Rightarrow>
     (let k = bitlen a - bitlen b in if 2 powi k \<le> q then k else k - 1))"

definition rne :: "rat \<Rightarrow> int" where
  "rne x = (let f = \<lfloor>x\<rfloor>; r = x - of_int f in
     if r < 1 / 2 then f
     else if 1 / 2 < r then f + 1
     else if even f then f else f + 1)"

definition ulp_exp :: "fformat \<Rightarrow> rat \<Rightarrow> int" where
  "ulp_exp F m = max (flog2 m) (emin F) - int (prec F) + 1"

definition round_mag :: "fformat \<Rightarrow> rat \<Rightarrow> rat" where
  "round_mag F m = (let u = 2 powi ulp_exp F m in of_int (rne (m / u)) * u)"

definition fround :: "fformat \<Rightarrow> bool \<Rightarrow> rat \<Rightarrow> fp" where
  "fround F s q =
     (if q = 0 then zero_of s
      else let r = round_mag F \<bar>q\<bar>
           in if 2 powi (emax F + 1) \<le> r then inf_of (q < 0)
              else if r = 0 then zero_of (q < 0)
              else Finite (if q < 0 then - r else r))"

text \<open>
  The formats the error analysis below covers: at least four significand bits and a
  largest exponent of at least two, as every IEEE 754 format has.
\<close>

definition valid_format :: "fformat \<Rightarrow> bool" where
  "valid_format F = (4 \<le> prec F \<and> 2 \<le> emax F)"

text \<open>Division, multiplication and addition of IEEE 754, with their special cases.\<close>

definition fdiv :: "fformat \<Rightarrow> fp \<Rightarrow> fp \<Rightarrow> fp" where
  "fdiv F x y =
     (if is_nan x \<or> is_nan y then NaN
      else if is_inf x then (if is_inf y then NaN else inf_of (sign_bit x \<noteq> sign_bit y))
      else if is_inf y then zero_of (sign_bit x \<noteq> sign_bit y)
      else if is_zero y then (if is_zero x then NaN else inf_of (sign_bit x \<noteq> sign_bit y))
      else fround F (sign_bit x \<noteq> sign_bit y) (val x / val y))"

definition fmul :: "fformat \<Rightarrow> fp \<Rightarrow> fp \<Rightarrow> fp" where
  "fmul F x y =
     (if is_nan x \<or> is_nan y then NaN
      else if is_inf x \<or> is_inf y
        then (if is_zero x \<or> is_zero y then NaN else inf_of (sign_bit x \<noteq> sign_bit y))
      else fround F (sign_bit x \<noteq> sign_bit y) (val x * val y))"

definition fadd :: "fformat \<Rightarrow> fp \<Rightarrow> fp \<Rightarrow> fp" where
  "fadd F x y =
     (if is_nan x \<or> is_nan y then NaN
      else if is_inf x then (if is_inf y \<and> x \<noteq> y then NaN else x)
      else if is_inf y then y
      else if val x + val y = 0 then zero_of (sign_bit x \<and> sign_bit y)
      else fround F False (val x + val y))"

definition fp_of_nat :: "fformat \<Rightarrow> nat \<Rightarrow> fp" where
  "fp_of_nat F n = fround F False (of_nat n)"

subsection \<open>Reductions\<close>

text \<open>
  The order in which a library adds the pixels of an array is its own business (numpy
  adds pairwise, other back ends sequentially), and it decides the rounding of the sum.
  The numerics of a run are therefore the raster's format and the two summations in
  use: the one behind xarray's \<^verbatim>\<open>DataArray.mean\<close> and the one behind
  \<^verbatim>\<open>numpy.nanmean\<close>. \<open>seq_sum\<close> is the sequential summation.
\<close>

record numerics =
  fmt :: fformat
  xr_sum :: "fp list \<Rightarrow> fp"
  np_sum :: "fp list \<Rightarrow> fp"

definition seq_sum :: "fformat \<Rightarrow> fp list \<Rightarrow> fp" where
  "seq_sum F xs = foldl (fadd F) (Finite 0) xs"

text \<open>
  What every summation of IEEE arithmetic has in common: \<open>sum_of F xs r\<close> holds when \<open>r\<close>
  is the result of adding the elements of \<open>xs\<close> with \<open>fadd F\<close> in some order and with
  some bracketing (the sum of no element is zero). \<open>ieee_sum F fsum\<close> says that \<open>fsum\<close>
  is such a summation.
\<close>

inductive sum_of :: "fformat \<Rightarrow> fp list \<Rightarrow> fp \<Rightarrow> bool" for F where
  sum_nil: "sum_of F [] (Finite 0)"
| sum_one: "sum_of F [x] x"
| sum_app: "sum_of F xs a \<Longrightarrow> sum_of F ys b \<Longrightarrow> sum_of F (xs @ ys) (fadd F a b)"
| sum_perm: "sum_of F xs a \<Longrightarrow> mset ys = mset xs \<Longrightarrow> sum_of F ys a"

definition ieee_sum :: "fformat \<Rightarrow> (fp list \<Rightarrow> fp) \<Rightarrow> bool" where
  "ieee_sum F fsum = (\<forall>xs. sum_of F xs (fsum xs))"

text \<open>
  Both means skip NaN pixels and nothing else (\<^verbatim>\<open>mean\<close> with xarray's default
  \<^verbatim>\<open>skipna\<close> on a float array, \<^verbatim>\<open>nanmean\<close> by its contract): the sum of the pixels that
  are not NaN, divided by their number. The division is numpy's: the sum, a number of
  the raster's format, is divided by the integer count in the format the two promote
  to (double precision, or the raster's format where that is wider), and the quotient
  is cast back to the raster's format.
\<close>

definition promote :: "fformat \<Rightarrow> fformat" where
  "promote F = \<lparr>prec = max (prec F) 53, emax = max (emax F) 1023\<rparr>"

definition cast :: "fformat \<Rightarrow> fp \<Rightarrow> fp" where
  "cast F x = (case x of Finite q \<Rightarrow> fround F False q | _ \<Rightarrow> x)"

definition skipna_mean :: "fformat \<Rightarrow> (fp list \<Rightarrow> fp) \<Rightarrow> fp list \<Rightarrow> fp" where
  "skipna_mean F fsum xs =
     (let ys = filter (\<lambda>x. \<not> is_nan x) xs
      in cast F (fdiv (promote F) (fsum ys) (fp_of_nat (promote F) (length ys))))"

definition mean :: "numerics \<Rightarrow> fp list \<Rightarrow> fp" where
  "mean N xs = skipna_mean (fmt N) (xr_sum N) xs"

definition nanmean :: "numerics \<Rightarrow> fp list \<Rightarrow> fp" where
  "nanmean N xs = skipna_mean (fmt N) (np_sum N) xs"

text \<open>
  The mean of the specification's testable property, for comparison: taken over the
  finite pixels only, infinities excluded as well, with the same division.
\<close>

definition finite_mean :: "fformat \<Rightarrow> (fp list \<Rightarrow> fp) \<Rightarrow> fp list \<Rightarrow> fp" where
  "finite_mean F fsum xs =
     (let ys = filter is_finite xs
      in cast F (fdiv (promote F) (fsum ys) (fp_of_nat (promote F) (length ys))))"

subsection \<open>Arrays and rasters\<close>

text \<open>
  A band (an xarray \<^verbatim>\<open>DataArray\<close>) is the list of its pixels over the raster's grid, in
  storage order; a pixel is an index of that list. The raster (an xarray \<^verbatim>\<open>Dataset\<close>)
  maps band names to bands. \<open>s1.vv\<close> is \<open>getattr s1 ''vv''\<close>, and \<open>s1["vv_r"] = a\<close> is
  \<open>setitem s1 ''vv_r'' a\<close>. The bands of one \<^verbatim>\<open>Dataset\<close> lie on one grid, so two of them
  have the same length; dividing one by the other divides them pixel by pixel and
  does not raise (xarray aligns its operands). Dividing a band by a scalar divides
  every pixel by it.
\<close>

type_synonym data_array = "fp list"

type_synonym xr_dataset = "string \<Rightarrow> data_array option"

definition getattr :: "xr_dataset \<Rightarrow> string \<Rightarrow> error + data_array" where
  "getattr ds name = (case ds name of None \<Rightarrow> Inl (AttributeError name) | Some a \<Rightarrow> Inr a)"

definition setitem :: "xr_dataset \<Rightarrow> string \<Rightarrow> data_array \<Rightarrow> xr_dataset" where
  "setitem ds name a = ds(name \<mapsto> a)"

definition da_div :: "fformat \<Rightarrow> data_array \<Rightarrow> data_array \<Rightarrow> data_array" where
  "da_div F xs ys = map2 (fdiv F) xs ys"

definition da_div_scalar :: "fformat \<Rightarrow> data_array \<Rightarrow> fp \<Rightarrow> data_array" where
  "da_div_scalar F xs m = map (\<lambda>x. fdiv F x m) xs"

subsection \<open>Datacube datasets\<close>

text \<open>
  A dataset of the datacube has a centre time (a timestamp; every dataset of the product
  \<^verbatim>\<open>s1_rtc\<close> has one, and timestamps are totally ordered), an identifier (a UUID,
  compared as the integer it is) and its metadata document, a dictionary of strings,
  numbers and nested dictionaries. Subscripting a dictionary with a missing key raises
  \<open>KeyError\<close>; subscripting a string or a number with a key raises \<open>TypeError\<close>.
\<close>

datatype json = JStr string | JNum rat | JObj "(string \<times> json) list"

record dataset =
  center_time :: int
  id_uuid :: nat
  metadata_doc :: "(string \<times> json) list"

definition dict_get :: "(string \<times> json) list \<Rightarrow> string \<Rightarrow> error + json" where
  "dict_get kvs k = (case map_of kvs k of None \<Rightarrow> Inl (KeyError k) | Some v \<Rightarrow> Inr v)"

fun subscript :: "json \<Rightarrow> string \<Rightarrow> error + json" where
  "subscript (JObj kvs) k = dict_get kvs k"
| "subscript v k = Inl TypeError"

text \<open>Python's list indexing: a negative index counts from the end.\<close>

definition getitem :: "'a list \<Rightarrow> int \<Rightarrow> error + 'a" where
  "getitem xs i =
     (if 0 \<le> i \<and> i < int (length xs) then Inr (xs ! nat i)
      else if i < 0 \<and> - i \<le> int (length xs) then Inr (xs ! nat (int (length xs) + i))
      else Inl IndexError)"

subsection \<open>The cells of the notebook\<close>

text \<open>
  Cell 5. \<^verbatim>\<open>sorted(senti_datasets, key = lambda ds: (ds.center_time, ds.id))\<close> is a
  stable sort by the key, tuples compared lexicographically; \<open>sort_key\<close> is the stable
  insertion sort, and a stable sort has one result. Then \<^verbatim>\<open>sample = senti_datasets[100]\<close>
  and the label of its metadata is printed.
\<close>

definition sort_datasets :: "dataset list \<Rightarrow> dataset list" where
  "sort_datasets found = sort_key (\<lambda>ds. (center_time ds, id_uuid ds)) found"

definition cell5 :: "dataset list \<Rightarrow> error + dataset list \<times> dataset" where
  "cell5 found =
     (let senti_datasets = sort_datasets found in
      bnd (getitem senti_datasets 100) (\<lambda>sample.
      bnd (dict_get (metadata_doc sample) ''label'') (\<lambda>label.
      Inr (senti_datasets, sample))))"

text \<open>
  Cell 9. The identifier is hard-coded; the comprehension
  \<^verbatim>\<open>[ds for ds in senti_datasets if ds.metadata_doc['id'] == id]\<close> tests the datasets in
  order and raises at the first one whose metadata has no \<^verbatim>\<open>id\<close>. The extent and the
  date are read from \<^verbatim>\<open>selected_id[0]\<close>.
\<close>

definition id_str :: string where
  "id_str = ''e320bae8-996e-56ea-ae68-0efbefa47e9a''"

fun select_by_id :: "string \<Rightarrow> dataset list \<Rightarrow> error + dataset list" where
  "select_by_id i [] = Inr []"
| "select_by_id i (ds # dss) =
     bnd (dict_get (metadata_doc ds) ''id'') (\<lambda>v.
     bnd (select_by_id i dss) (\<lambda>rest.
     Inr (if v = JStr i then ds # rest else rest)))"

definition selected_field :: "dataset list \<Rightarrow> string \<Rightarrow> string \<Rightarrow> error + json" where
  "selected_field selected_id k1 k2 =
     bnd (getitem selected_id 0) (\<lambda>ds.
     bnd (dict_get (metadata_doc ds) k1) (\<lambda>d.
     subscript d k2))"

definition cell9 :: "dataset list \<Rightarrow> error + dataset list \<times> json \<times> json \<times> json" where
  "cell9 senti_datasets =
     bnd (select_by_id id_str senti_datasets) (\<lambda>selected_id.
     bnd (selected_field selected_id ''extent'' ''lat'') (\<lambda>lat_dict.
     bnd (selected_field selected_id ''extent'' ''lon'') (\<lambda>lon_dict.
     bnd (selected_field selected_id ''properties'' ''datetime'') (\<lambda>dt_string.
     Inr (selected_id, lat_dict, lon_dict, dt_string)))))"

text \<open>Cell 10: the two coordinate intervals.\<close>

definition interval :: "json \<Rightarrow> error + json \<times> json" where
  "interval d =
     bnd (subscript d ''begin'') (\<lambda>b.
     bnd (subscript d ''end'') (\<lambda>e.
     Inr (b, e)))"

definition cell10 :: "json \<Rightarrow> json \<Rightarrow> error + (json \<times> json) \<times> (json \<times> json)" where
  "cell10 lat_dict lon_dict =
     bnd (interval lat_dict) (\<lambda>latitude.
     bnd (interval lon_dict) (\<lambda>longitude.
     Inr (latitude, longitude)))"

text \<open>
  Cell 16, one definition per assignment, in the order of the cell:
  \<^verbatim>\<open>s1["vv_vh"] = s1.vv/s1.vh\<close>, \<^verbatim>\<open>s1["vh_vv"] = s1.vh/s1.vv\<close>,
  \<^verbatim>\<open>s1["vv_r"] = s1.vv/s1.vv.mean()\<close>, \<^verbatim>\<open>s1["vh_g"] = s1.vh/s1.vh.mean()\<close>,
  \<^verbatim>\<open>s1["vhvv_b"] = s1.vh_vv/s1.vh_vv.mean()\<close>.
\<close>

definition set_ratio :: "numerics \<Rightarrow> string \<Rightarrow> string \<Rightarrow> string \<Rightarrow> xr_dataset \<Rightarrow> error + xr_dataset" where
  "set_ratio N target num den s1 =
     bnd (getattr s1 num) (\<lambda>a.
     bnd (getattr s1 den) (\<lambda>b.
     Inr (setitem s1 target (da_div (fmt N) a b))))"

definition set_normalised :: "numerics \<Rightarrow> string \<Rightarrow> string \<Rightarrow> xr_dataset \<Rightarrow> error + xr_dataset" where
  "set_normalised N target band s1 =
     bnd (getattr s1 band) (\<lambda>a.
     bnd (getattr s1 band) (\<lambda>b.
     Inr (setitem s1 target (da_div_scalar (fmt N) a (mean N b)))))"

definition cell16 :: "numerics \<Rightarrow> xr_dataset \<Rightarrow> error + xr_dataset" where
  "cell16 N s1 =
     bnd (set_ratio N ''vv_vh'' ''vv'' ''vh'' s1) (\<lambda>s1.
     bnd (set_ratio N ''vh_vv'' ''vh'' ''vv'' s1) (\<lambda>s1.
     bnd (set_normalised N ''vv_r'' ''vv'' s1) (\<lambda>s1.
     bnd (set_normalised N ''vh_g'' ''vh'' s1) (\<lambda>s1.
     set_normalised N ''vhvv_b'' ''vh_vv'' s1))))"

text \<open>
  Cell 22 (method 2 of the composite):
  \<^verbatim>\<open>red_arr = xr.DataArray(s1.vv) / np.nanmean(xr.DataArray(s1.vv))\<close>, and the same for
  green from \<^verbatim>\<open>vh\<close> and blue from \<^verbatim>\<open>vh_vv\<close>.
\<close>

definition nan_normalised :: "numerics \<Rightarrow> string \<Rightarrow> xr_dataset \<Rightarrow> error + data_array" where
  "nan_normalised N band s1 =
     bnd (getattr s1 band) (\<lambda>a.
     bnd (getattr s1 band) (\<lambda>b.
     Inr (da_div_scalar (fmt N) a (nanmean N b))))"

record composite =
  red_arr :: data_array
  green_arr :: data_array
  blue_arr :: data_array

definition cell22 :: "numerics \<Rightarrow> xr_dataset \<Rightarrow> error + composite" where
  "cell22 N s1 =
     bnd (nan_normalised N ''vv'' s1) (\<lambda>r.
     bnd (nan_normalised N ''vh'' s1) (\<lambda>g.
     bnd (nan_normalised N ''vh_vv'' s1) (\<lambda>b.
     Inr \<lparr>red_arr = r, green_arr = g, blue_arr = b\<rparr>)))"

text \<open>
  The whole notebook, run from top to bottom. The outcomes of the external calls are
  its inputs: the query \<^verbatim>\<open>dc.find_datasets(product='s1_rtc')\<close>, the load
  \<^verbatim>\<open>dc.load(product='s1_rtc', id=..., output_crs=..., resolution=...)\<close>, and the plotting
  calls, named by what they draw. No cell has a \<^verbatim>\<open>try\<close>: each statement runs only when
  the one before it returned.
\<close>

record datacube =
  find_datasets :: "error + dataset list"
  load :: "error + xr_dataset"

record workspace =
  senti_datasets :: "dataset list"
  sample :: dataset
  s1 :: xr_dataset
  selected_id :: "dataset list"
  latitude :: "json \<times> json"
  longitude :: "json \<times> json"
  composite_arr :: composite

definition notebook :: "datacube \<Rightarrow> (string \<Rightarrow> error + unit) \<Rightarrow> numerics \<Rightarrow> error + workspace" where
  "notebook dc plot N =
     bnd (find_datasets dc) (\<lambda>found.
     bnd (cell5 found) (\<lambda>(sorted_datasets, sample_ds).
     bnd (load dc) (\<lambda>loaded.
     bnd (cell9 sorted_datasets) (\<lambda>(selected, lat_dict, lon_dict, dt_string).
     bnd (cell10 lat_dict lon_dict) (\<lambda>(lat, lon).
     bnd (plot ''display_map'') (\<lambda>_.
     bnd (cell16 N loaded) (\<lambda>decorated.
     bnd (plot ''vh_g'') (\<lambda>_.
     bnd (plot ''vv_r'') (\<lambda>_.
     bnd (plot ''vh_vv'') (\<lambda>_.
     bnd (plot ''method 1'') (\<lambda>_.
     bnd (cell22 N decorated) (\<lambda>comp.
     bnd (plot ''method 2'') (\<lambda>_.
     Inr \<lparr>senti_datasets = sorted_datasets, sample = sample_ds, s1 = decorated,
          selected_id = selected, latitude = lat, longitude = lon,
          composite_arr = comp\<rparr>)))))))))))))"

subsection \<open>Auxiliary definitions for the statements\<close>

text \<open>
  \<open>decorated\<close> is the raster that cell 16 leaves behind, written in one piece;
  \<open>cell16_Inr\<close> below proves that the cell computes it. \<open>pixel\<close> reads one pixel of a
  band of a cell's result, and \<open>new_bands\<close> names the bands a cell has added.
\<close>

definition decorated :: "numerics \<Rightarrow> xr_dataset \<Rightarrow> data_array \<Rightarrow> data_array \<Rightarrow> xr_dataset" where
  "decorated N raster vv vh =
     (let F = fmt N;
          vv_vh = map2 (fdiv F) vv vh;
          vh_vv = map2 (fdiv F) vh vv
      in raster(''vv_vh'' \<mapsto> vv_vh,
                ''vh_vv'' \<mapsto> vh_vv,
                ''vv_r'' \<mapsto> da_div_scalar F vv (mean N vv),
                ''vh_g'' \<mapsto> da_div_scalar F vh (mean N vh),
                ''vhvv_b'' \<mapsto> da_div_scalar F vh_vv (mean N vh_vv)))"

definition pixel :: "error + xr_dataset \<Rightarrow> string \<Rightarrow> nat \<Rightarrow> fp option" where
  "pixel r name i =
     (case r of Inl e \<Rightarrow> None
      | Inr ds \<Rightarrow> (case ds name of None \<Rightarrow> None
          | Some a \<Rightarrow> if i < length a then Some (a ! i) else None))"

definition new_bands :: "xr_dataset \<Rightarrow> error + xr_dataset \<Rightarrow> string set" where
  "new_bands before r = (case r of Inl e \<Rightarrow> {} | Inr after \<Rightarrow> dom after - dom before)"

subsection \<open>Example inputs\<close>

text \<open>
  Single-precision numerics with sequential summation in both libraries, and two
  rasters of two pixels: \<open>raster_zero\<close> has a zero \<open>vv\<close> pixel, \<open>raster_two\<close> has the
  pixel pair \<open>vh = 1\<close>, \<open>vv = 41\<close>, whose quotient \<open>1 / 41\<close> is rounded.
\<close>

definition num32 :: numerics where
  "num32 = \<lparr>fmt = binary32, xr_sum = seq_sum binary32, np_sum = seq_sum binary32\<rparr>"

definition raster_zero :: xr_dataset where
  "raster_zero = [''vv'' \<mapsto> [Finite 0, Finite 1], ''vh'' \<mapsto> [Finite 1, Finite 1]]"

definition raster_two :: xr_dataset where
  "raster_two = [''vv'' \<mapsto> [Finite 2, Finite 41], ''vh'' \<mapsto> [Finite 1, Finite 1]]"

text \<open>
  Three datasets (the first has the identifier the notebook looks for), a query result
  of 101 datasets, and outcomes of the external calls: a load that raises, a load that
  returns a raster without bands (as a load that matches no data does), a load that
  returns \<open>raster_two\<close>, plotting calls that all return, and plotting calls of which the
  map display raises.
\<close>

definition doc :: "string \<Rightarrow> string \<Rightarrow> (string \<times> json) list" where
  "doc i l =
     [(''id'', JStr i), (''label'', JStr l),
      (''extent'', JObj [(''lat'', JObj [(''begin'', JNum (-36)), (''end'', JNum (-35))]),
                         (''lon'', JObj [(''begin'', JNum 148), (''end'', JNum 149)])]),
      (''properties'', JObj [(''datetime'', JStr ''2020-01-06T19:17:03Z'')])]"

definition ds_a :: dataset where
  "ds_a = \<lparr>center_time = 5, id_uuid = 2, metadata_doc = doc id_str ''a''\<rparr>"

definition ds_b :: dataset where
  "ds_b = \<lparr>center_time = 3, id_uuid = 9, metadata_doc = doc ''b-id'' ''b''\<rparr>"


definition found101 :: "dataset list" where
  "found101 = replicate 100 ds_b @ [ds_a]"

definition dc_load_fails :: datacube where
  "dc_load_fails =
     \<lparr>find_datasets = Inr found101, load = Inl (LibraryError ''dataset not found'')\<rparr>"

definition dc_empty :: datacube where
  "dc_empty = \<lparr>find_datasets = Inr found101, load = Inr Map.empty\<rparr>"

definition dc_two :: datacube where
  "dc_two = \<lparr>find_datasets = Inr found101, load = Inr raster_two\<rparr>"

definition plot_ok :: "string \<Rightarrow> error + unit" where
  "plot_ok name = Inr ()"

definition plot_map_fails :: "string \<Rightarrow> error + unit" where
  "plot_map_fails name =
     (if name = ''display_map'' then Inl (LibraryError ''no display'') else Inr ())"

section \<open>Properties\<close>

subsection \<open>What the cells compute\<close>

lemma bnd_Inr_iff: "bnd m f = Inr y \<longleftrightarrow> (\<exists>v. m = Inr v \<and> f v = Inr y)"
  by (cases m) (simp_all add: bnd_def)

lemma set_ratio_Inr:
  "raster num = Some a \<Longrightarrow> raster den = Some b \<Longrightarrow>
   set_ratio N target num den raster = Inr (raster(target \<mapsto> map2 (fdiv (fmt N)) a b))"
  by (simp add: set_ratio_def getattr_def da_div_def setitem_def bnd_def)

lemma set_normalised_Inr:
  "raster band = Some a \<Longrightarrow>
   set_normalised N target band raster =
     Inr (raster(target \<mapsto> da_div_scalar (fmt N) a (mean N a)))"
  by (simp add: set_normalised_def getattr_def setitem_def bnd_def)

lemma cell16_Inr:
  assumes "raster ''vv'' = Some vv" "raster ''vh'' = Some vh"
  shows "cell16 N raster = Inr (decorated N raster vv vh)"
  using assms
  by (simp add: cell16_def decorated_def Let_def set_ratio_Inr set_normalised_Inr bnd_def)

lemma set_ratio_InrD:
  "set_ratio N target num den raster = Inr s' \<Longrightarrow>
   \<exists>a b. raster num = Some a \<and> raster den = Some b"
  by (auto simp: set_ratio_def getattr_def bnd_Inr_iff split: option.splits)

lemma cell16_InrD:
  assumes "cell16 N raster = Inr s'"
  shows "\<exists>vv vh. raster ''vv'' = Some vv \<and> raster ''vh'' = Some vh"
proof -
  from assms obtain t where "set_ratio N ''vv_vh'' ''vv'' ''vh'' raster = Inr t"
    by (auto simp: cell16_def bnd_Inr_iff)
  then show ?thesis by (rule set_ratio_InrD)
qed

lemma decorated_bands:
  "decorated N raster vv vh ''vv_vh'' = Some (map2 (fdiv (fmt N)) vv vh)"
  "decorated N raster vv vh ''vh_vv'' = Some (map2 (fdiv (fmt N)) vh vv)"
  "decorated N raster vv vh ''vv_r'' = Some (da_div_scalar (fmt N) vv (mean N vv))"
  "decorated N raster vv vh ''vh_g'' = Some (da_div_scalar (fmt N) vh (mean N vh))"
  "decorated N raster vv vh ''vhvv_b'' =
     Some (da_div_scalar (fmt N) (map2 (fdiv (fmt N)) vh vv) (mean N (map2 (fdiv (fmt N)) vh vv)))"
  by (simp_all add: decorated_def Let_def)

lemma decorated_other:
  "name \<notin> {''vv_vh'', ''vh_vv'', ''vv_r'', ''vh_g'', ''vhvv_b''} \<Longrightarrow>
   decorated N raster vv vh name = raster name"
  by (simp add: decorated_def Let_def)

lemma dom_decorated:
  "dom (decorated N raster vv vh) =
     dom raster \<union> {''vv_vh'', ''vh_vv'', ''vv_r'', ''vh_g'', ''vhvv_b''}"
  by (auto simp: decorated_def Let_def)

lemma pixel_Inr:
  "ds name = Some a \<Longrightarrow> i < length a \<Longrightarrow> pixel (Inr ds) name i = Some (a ! i)"
  by (simp add: pixel_def)

lemma Un_Diff_fresh: "A \<inter> B = {} \<Longrightarrow> (A \<union> B) - A = B"
  by blast

lemma raster_zero_bands:
  "raster_zero ''vv'' = Some [Finite 0, Finite 1]"
  "raster_zero ''vh'' = Some [Finite 1, Finite 1]"
  by (simp_all add: raster_zero_def)

lemma raster_two_bands:
  "raster_two ''vv'' = Some [Finite 2, Finite 41]"
  "raster_two ''vh'' = Some [Finite 1, Finite 1]"
  by (simp_all add: raster_two_def)

subsection \<open>Rounding errors\<close>

text \<open>
  The exponent function and the rounding to an integer meet their specifications, and
  rounding a magnitude errs by at most half a unit in the last place: by the relative
  error \<open>2 ^ (- prec)\<close> in the normal range, and by \<open>2 ^ (emin - prec)\<close> below it.
  A magnitude at or above \<open>2 ^ (emax + 1)\<close> overflows.
\<close>

lemma two_powi_add: "(2::rat) powi (a + b) = 2 powi a * 2 powi b"
  by (simp add: power_int_add)

lemma two_powi_diff: "(2::rat) powi (a - b) = 2 powi a / 2 powi b"
  by (simp add: power_int_diff)

lemma rne_error: "\<bar>of_int (rne x) - x\<bar> \<le> 1 / 2"
proof -
  define f where "f = \<lfloor>x\<rfloor>"
  have "of_int f \<le> x" "x < of_int f + 1"
    unfolding f_def by linarith+
  then show ?thesis
    unfolding rne_def Let_def f_def [symmetric] by (auto simp: abs_if)
qed

lemma floor_le_rne: "\<lfloor>x\<rfloor> \<le> rne x"
  by (simp add: rne_def Let_def)

lemma flog2_bounds:
  assumes "0 < m"
  shows "2 powi flog2 m \<le> m" "m < 2 powi (flog2 m + 1)"
proof -
  obtain a b where q: "quotient_of m = (a, b)" by (cases "quotient_of m")
  then have b: "0 < b" and m: "m = of_int a / of_int b"
    using quotient_of_denom_pos quotient_of_div by blast+
  with assms have a: "0 < a"
    by (simp add: zero_less_divide_iff)
  define A where "A = bitlen a"
  define B where "B = bitlen b"
  have A: "2 ^ nat (A - 1) \<le> a" "a < 2 ^ nat A" and B: "2 ^ nat (B - 1) \<le> b" "b < 2 ^ nat B"
    using bitlen_bounds [OF a] bitlen_bounds [OF b] by (simp_all add: A_def B_def)
  have A1: "1 \<le> A" and B1: "1 \<le> B"
    using a b by (simp_all add: A_def B_def bitlen_alt_def)
  have ra: "(2::rat) powi (A - 1) \<le> of_int a" "of_int a < (2::rat) powi A"
  proof -
    have "(2::rat) powi (A - 1) = of_int (2 ^ nat (A - 1))"
      using A1 by (simp add: power_int_nonneg_exp)
    then show "(2::rat) powi (A - 1) \<le> of_int a"
      using A(1) by (simp only: of_int_le_iff)
    have "(2::rat) powi A = of_int (2 ^ nat A)"
      using A1 by (simp add: power_int_nonneg_exp)
    then show "of_int a < (2::rat) powi A"
      using A(2) by (simp only: of_int_less_iff)
  qed
  have rb: "(2::rat) powi (B - 1) \<le> of_int b" "of_int b < (2::rat) powi B"
  proof -
    have "(2::rat) powi (B - 1) = of_int (2 ^ nat (B - 1))"
      using B1 by (simp add: power_int_nonneg_exp)
    then show "(2::rat) powi (B - 1) \<le> of_int b"
      using B(1) by (simp only: of_int_le_iff)
    have "(2::rat) powi B = of_int (2 ^ nat B)"
      using B1 by (simp add: power_int_nonneg_exp)
    then show "of_int b < (2::rat) powi B"
      using B(2) by (simp only: of_int_less_iff)
  qed
  have bpos: "(0::rat) < of_int b" using b by simp
  have up: "m < 2 powi (A - B + 1)"
  proof -
    have "m < 2 powi A / of_int b"
      unfolding m using ra(2) bpos by (simp add: divide_strict_right_mono)
    also have "\<dots> \<le> 2 powi A / 2 powi (B - 1)"
      using rb(1) bpos by (intro divide_left_mono mult_pos_pos) simp_all
    also have "\<dots> = 2 powi (A - (B - 1))"
      by (simp add: power_int_diff)
    finally show ?thesis by (simp add: algebra_simps)
  qed
  have lo: "2 powi (A - B - 1) \<le> m"
  proof -
    have "A - B - 1 = (A - 1) - B" by simp
    then have "(2::rat) powi (A - B - 1) = 2 powi (A - 1) / 2 powi B"
      by (simp only: two_powi_diff)
    also have "\<dots> \<le> of_int a / of_int b"
      using ra(1) rb(2) bpos a by (intro frac_le) simp_all
    finally show ?thesis by (simp add: m)
  qed
  have fl: "flog2 m = (if 2 powi (A - B) \<le> m then A - B else A - B - 1)"
    by (simp add: flog2_def q A_def B_def Let_def)
  show "2 powi flog2 m \<le> m"
    using lo by (simp add: fl)
  show "m < 2 powi (flog2 m + 1)"
    using up by (auto simp: fl not_le)
qed

lemma flog2_ge:
  assumes "0 < m" "2 powi k \<le> m"
  shows "k \<le> flog2 m"
proof (rule ccontr)
  assume "\<not> k \<le> flog2 m"
  then have "flog2 m + 1 \<le> k" by simp
  then have "(2::rat) powi (flog2 m + 1) \<le> 2 powi k"
    by (intro power_int_increasing) simp_all
  with flog2_bounds(2) [OF assms(1)] assms(2) show False by simp
qed

lemma flog2_less:
  assumes "0 < m" "m < 2 powi k"
  shows "flog2 m < k"
proof (rule ccontr)
  assume "\<not> flog2 m < k"
  then have "(2::rat) powi k \<le> 2 powi flog2 m"
    by (intro power_int_increasing) simp_all
  with flog2_bounds(1) [OF assms(1)] assms(2) show False by simp
qed

lemma round_mag_nonneg: "0 \<le> m \<Longrightarrow> 0 \<le> round_mag F m"
proof -
  assume m: "0 \<le> m"
  have "0 \<le> m / 2 powi ulp_exp F m" using m by simp
  then have "0 \<le> \<lfloor>m / 2 powi ulp_exp F m\<rfloor>" by simp
  with floor_le_rne [of "m / 2 powi ulp_exp F m"] have "0 \<le> rne (m / 2 powi ulp_exp F m)"
    by linarith
  then show ?thesis by (simp add: round_mag_def Let_def)
qed

lemma round_mag_error: "\<bar>round_mag F m - m\<bar> \<le> 2 powi ulp_exp F m / 2"
proof -
  define u :: rat where "u = 2 powi ulp_exp F m"
  have u: "0 < u" by (simp add: u_def)
  have "round_mag F m - m = (of_int (rne (m / u)) - m / u) * u"
    using u by (simp add: round_mag_def Let_def u_def [symmetric] left_diff_distrib)
  then have "\<bar>round_mag F m - m\<bar> = \<bar>of_int (rne (m / u)) - m / u\<bar> * \<bar>u\<bar>"
    by (simp only: abs_mult)
  also have "\<dots> = \<bar>of_int (rne (m / u)) - m / u\<bar> * u"
    using u by simp
  also have "\<dots> \<le> 1 / 2 * u"
    using rne_error [of "m / u"] u by (intro mult_right_mono) simp_all
  finally show ?thesis by (simp add: u_def)
qed

lemma round_mag_normal:
  assumes "0 < m" "2 powi emin F \<le> m"
  shows "\<bar>round_mag F m - m\<bar> \<le> 2 powi (- int (prec F)) * m"
proof -
  have "emin F \<le> flog2 m" using assms by (rule flog2_ge)
  then have "ulp_exp F m = - int (prec F) + flog2 m + 1"
    by (simp add: ulp_exp_def)
  then have "(2::rat) powi ulp_exp F m = 2 powi (- int (prec F)) * 2 powi flog2 m * 2 powi 1"
    by (simp only: two_powi_add)
  then have "(2::rat) powi ulp_exp F m / 2 = 2 powi (- int (prec F)) * 2 powi flog2 m"
    by simp
  also have "\<dots> \<le> 2 powi (- int (prec F)) * m"
    using flog2_bounds(1) [OF assms(1)] by (intro mult_left_mono) simp_all
  finally show ?thesis using round_mag_error [of F m] by linarith
qed

lemma round_mag_subnormal:
  assumes "0 < m" "m < 2 powi emin F"
  shows "\<bar>round_mag F m - m\<bar> \<le> 2 powi (emin F - int (prec F))"
proof -
  have "flog2 m < emin F" using assms by (rule flog2_less)
  then have "ulp_exp F m = (emin F - int (prec F)) + 1"
    by (simp add: ulp_exp_def)
  then have "(2::rat) powi ulp_exp F m = 2 powi (emin F - int (prec F)) * 2 powi 1"
    by (simp only: two_powi_add)
  then have "(2::rat) powi ulp_exp F m / 2 = 2 powi (emin F - int (prec F))"
    by simp
  then show ?thesis using round_mag_error [of F m] by linarith
qed

lemma round_mag_overflow:
  assumes "1 \<le> prec F" "0 \<le> emax F" "2 powi (emax F + 1) \<le> m"
  shows "2 powi (emax F + 1) \<le> round_mag F m"
proof -
  have m: "0 < m"
    using assms(3) by (rule less_le_trans [rotated]) simp
  have e: "emax F + 1 \<le> flog2 m" using m assms(3) by (rule flog2_ge)
  with assms(2) have "emin F \<le> flog2 m" by (simp add: emin_def)
  then have ue: "ulp_exp F m = flog2 m - int (prec F) + 1"
    by (simp add: ulp_exp_def)
  define u :: rat where "u = 2 powi ulp_exp F m"
  have u: "0 < u" by (simp add: u_def)
  have "of_int (2 ^ (prec F - 1)) * u = (2::rat) powi (int (prec F) - 1) * u"
    using assms(1) by (simp add: power_int_nonneg_exp nat_diff_distrib)
  also have "\<dots> = 2 powi flog2 m"
    by (simp add: u_def ue power_int_add [symmetric])
  finally have pu: "of_int (2 ^ (prec F - 1)) * u = (2::rat) powi flog2 m" .
  have "of_int (2 ^ (prec F - 1)) \<le> m / u"
    using flog2_bounds(1) [OF m] u pu by (simp add: pos_le_divide_eq)
  then have "2 ^ (prec F - 1) \<le> \<lfloor>m / u\<rfloor>"
    by (simp only: le_floor_iff)
  with floor_le_rne [of "m / u"] have "2 ^ (prec F - 1) \<le> rne (m / u)"
    by linarith
  then have "(of_int (2 ^ (prec F - 1)) :: rat) \<le> of_int (rne (m / u))"
    by (simp only: of_int_le_iff)
  then have "of_int (2 ^ (prec F - 1)) * u \<le> of_int (rne (m / u)) * u"
    using u by (intro mult_right_mono) simp_all
  then have "2 powi flog2 m \<le> of_int (rne (m / u)) * u"
    by (simp only: pu)
  then have "2 powi flog2 m \<le> round_mag F m"
    by (simp add: round_mag_def Let_def u_def)
  moreover have "(2::rat) powi (emax F + 1) \<le> 2 powi flog2 m"
    using e by (intro power_int_increasing) simp_all
  ultimately show ?thesis by linarith
qed

text \<open>
  A finite, nonzero result of \<open>fround\<close> is the rounded magnitude with the sign of the
  exact value, and a finite, nonzero quotient has finite, nonzero operands.
\<close>

lemma fround_finite_nonzero:
  assumes "is_finite (fround F s q)" "\<not> is_zero (fround F s q)"
  shows "q \<noteq> 0 \<and> 0 < round_mag F \<bar>q\<bar> \<and> round_mag F \<bar>q\<bar> < 2 powi (emax F + 1) \<and>
         fround F s q = Finite (if q < 0 then - round_mag F \<bar>q\<bar> else round_mag F \<bar>q\<bar>)"
proof -
  have nn: "0 \<le> round_mag F \<bar>q\<bar>" by (rule round_mag_nonneg) simp
  show ?thesis
    using assms nn
    by (auto simp: fround_def Let_def is_finite_def is_zero_def is_nan_def is_inf_def
        zero_of_def inf_of_def split: if_splits)
qed

lemma fround_pos:
  assumes "0 < q" "0 < round_mag F q" "round_mag F q < 2 powi (emax F + 1)"
  shows "fround F s q = Finite (round_mag F q)"
  using assms by (simp add: fround_def Let_def)

lemma fdiv_finite_nonzero:
  assumes "is_finite (fdiv F x y)" "\<not> is_zero (fdiv F x y)"
  shows "\<exists>a b. x = Finite a \<and> y = Finite b \<and> a \<noteq> 0 \<and> b \<noteq> 0 \<and>
           fdiv F x y = fround F (sign_bit x \<noteq> sign_bit y) (a / b)"
proof -
  have z: "fround F s 0 = zero_of s" for s
    by (simp add: fround_def)
  show ?thesis
    using assms
    by (cases x; cases y)
       (auto simp: z fdiv_def is_finite_def is_zero_def is_nan_def is_inf_def
          zero_of_def inf_of_def split: if_splits)
qed

text \<open>
  The product of the rounded quotients \<open>t\<close> and \<open>1 / t\<close>. Both being finite keeps \<open>t\<close>
  and \<open>1 / t\<close> below \<open>2 ^ (emax + 1)\<close>, hence above \<open>2 ^ (emin - 2)\<close>; at most one of them
  is below the normal range, where the relative error is at most \<open>4 * 2 ^ (- prec)\<close>.
\<close>

lemma prod_near_one:
  fixes e dx dy :: rat
  assumes "0 \<le> e" "\<bar>dx\<bar> \<le> 4 * e" "\<bar>dy\<bar> \<le> e"
  shows "\<bar>(1 + dx) * (1 + dy) - 1\<bar> \<le> 5 * e + 4 * e * e"
proof -
  have "(1 + dx) * (1 + dy) - 1 = dx + dy + dx * dy"
    by (simp add: algebra_simps)
  moreover have "\<bar>dx + dy + dx * dy\<bar> \<le> \<bar>dx + dy\<bar> + \<bar>dx * dy\<bar>"
    by (rule abs_triangle_ineq)
  moreover have "\<bar>dx + dy\<bar> \<le> \<bar>dx\<bar> + \<bar>dy\<bar>"
    by (rule abs_triangle_ineq)
  ultimately have "\<bar>(1 + dx) * (1 + dy) - 1\<bar> \<le> \<bar>dx\<bar> + \<bar>dy\<bar> + \<bar>dx\<bar> * \<bar>dy\<bar>"
    by (simp add: abs_mult)
  moreover have "\<bar>dx\<bar> * \<bar>dy\<bar> \<le> (4 * e) * e"
    using assms by (intro mult_mono) simp_all
  ultimately show ?thesis using assms by linarith
qed

lemma round_mag_rel4:
  assumes "0 < t" "2 powi (emin F - 2) \<le> t"
  shows "\<bar>round_mag F t - t\<bar> \<le> 4 * 2 powi (- int (prec F)) * t"
proof (cases "2 powi emin F \<le> t")
  case True
  have "\<bar>round_mag F t - t\<bar> \<le> 2 powi (- int (prec F)) * t"
    using assms(1) True by (rule round_mag_normal)
  also have "\<dots> \<le> 4 * (2 powi (- int (prec F)) * t)"
    using assms(1) by simp
  finally show ?thesis by (simp add: mult.assoc)
next
  case False
  then have "\<bar>round_mag F t - t\<bar> \<le> 2 powi (emin F - int (prec F))"
    using assms(1) by (intro round_mag_subnormal) simp_all
  also have "emin F - int (prec F) = 2 + (- int (prec F) + (emin F - 2))"
    by simp
  also have "(2::rat) powi (2 + (- int (prec F) + (emin F - 2))) =
      4 * 2 powi (- int (prec F)) * 2 powi (emin F - 2)"
    by (simp only: two_powi_add) simp
  also have "\<dots> \<le> 4 * 2 powi (- int (prec F)) * t"
    using assms(2) by (intro mult_left_mono) simp_all
  finally show ?thesis .
qed

lemma round_mag_finite_bound:
  assumes "1 \<le> prec F" "0 \<le> emax F" "round_mag F m < 2 powi (emax F + 1)"
  shows "m < 2 powi (emax F + 1)"
proof (rule ccontr)
  assume "\<not> m < 2 powi (emax F + 1)"
  then have "2 powi (emax F + 1) \<le> m" by simp
  with assms(1,2) have "2 powi (emax F + 1) \<le> round_mag F m"
    by (rule round_mag_overflow)
  with assms(3) show False by simp
qed

lemma eps_le:
  assumes "4 \<le> p"
  shows "(2::rat) powi (- int p) \<le> 1 / 16"
proof -
  have "(2::rat) powi (- int p) \<le> 2 powi (- 4)"
    using assms by (intro power_int_increasing) simp_all
  then show ?thesis by simp
qed

lemma round_product_near_one:
  assumes vf: "valid_format F" and t: "0 < t"
    and X: "round_mag F t < 2 powi (emax F + 1)"
    and Y: "round_mag F (1 / t) < 2 powi (emax F + 1)"
  shows "0 < round_mag F t * round_mag F (1 / t)"
    and "0 < round_mag F (round_mag F t * round_mag F (1 / t))"
    and "round_mag F (round_mag F t * round_mag F (1 / t)) < 2 powi (emax F + 1)"
    and "\<bar>round_mag F (round_mag F t * round_mag F (1 / t)) - 1\<bar> \<le> 2 powi (3 - int (prec F))"
proof -
  define e :: rat where "e = 2 powi (- int (prec F))"
  define x where "x = round_mag F t"
  define y where "y = round_mag F (1 / t)"
  define P where "P = x * y"
  from vf have p4: "4 \<le> prec F" and em: "2 \<le> emax F"
    by (simp_all add: valid_format_def)
  have e0: "0 < e" and e16: "e \<le> 1 / 16"
    using eps_le [OF p4] by (simp_all add: e_def)
  have it: "0 < 1 / t" using t by simp
  have tM: "t < 2 powi (emax F + 1)" and itM: "1 / t < 2 powi (emax F + 1)"
    using p4 em X Y by (auto intro: round_mag_finite_bound)
  have low_eq: "(2::rat) powi (emin F - 2) = 1 / 2 powi (emax F + 1)"
  proof -
    have "emin F - 2 = - (emax F + 1)" by (simp add: emin_def)
    then show ?thesis by (simp only: power_int_minus_divide)
  qed
  have tlow: "2 powi (emin F - 2) \<le> t"
  proof -
    have "1 / 2 powi (emax F + 1) < 1 / (1 / t)"
      using itM it by (intro divide_strict_left_mono) simp_all
    then show ?thesis using t by (simp add: low_eq)
  qed
  have itlow: "2 powi (emin F - 2) \<le> 1 / t"
  proof -
    have "1 / 2 powi (emax F + 1) < 1 / t"
      using tM t by (intro divide_strict_left_mono) simp_all
    then show ?thesis by (simp add: low_eq)
  qed
  have emin0: "(2::rat) powi emin F \<le> 1"
  proof -
    have "(2::rat) powi emin F \<le> 2 powi 0"
      using em by (intro power_int_increasing) (simp_all add: emin_def)
    then show ?thesis by simp
  qed
  have rel: "(\<bar>x - t\<bar> \<le> 4 * e * t \<and> \<bar>y - 1 / t\<bar> \<le> e * (1 / t)) \<or>
             (\<bar>x - t\<bar> \<le> e * t \<and> \<bar>y - 1 / t\<bar> \<le> 4 * e * (1 / t))"
  proof (cases "2 powi emin F \<le> 1 / t")
    case True
    have "\<bar>y - 1 / t\<bar> \<le> e * (1 / t)"
      unfolding y_def e_def using it True by (rule round_mag_normal)
    moreover have "\<bar>x - t\<bar> \<le> 4 * e * t"
      unfolding x_def e_def using t tlow by (rule round_mag_rel4)
    ultimately show ?thesis by blast
  next
    case False
    then have "1 / t < 1" using emin0 by simp
    then have "1 < t" using t by (simp add: divide_less_eq)
    with emin0 have "2 powi emin F \<le> t" by simp
    with t have "\<bar>x - t\<bar> \<le> e * t"
      unfolding x_def e_def by (rule round_mag_normal)
    moreover have "\<bar>y - 1 / t\<bar> \<le> 4 * e * (1 / t)"
      unfolding y_def e_def using it itlow by (rule round_mag_rel4)
    ultimately show ?thesis by blast
  qed
  define dx where "dx = x / t - 1"
  define dy where "dy = y * t - 1"
  have Pd: "P = (1 + dx) * (1 + dy)"
    using t by (simp add: P_def dx_def dy_def)
  have dxa: "\<bar>dx\<bar> = \<bar>x - t\<bar> / t"
  proof -
    have "dx = (x - t) / t" using t by (simp add: dx_def diff_divide_distrib)
    then show ?thesis using t by (simp add: abs_of_pos)
  qed
  have dya: "\<bar>dy\<bar> = \<bar>y - 1 / t\<bar> * t"
  proof -
    have "dy = (y - 1 / t) * t" using t by (simp add: dy_def left_diff_distrib)
    then show ?thesis using t by (simp add: abs_mult abs_of_pos)
  qed
  have near: "\<bar>P - 1\<bar> \<le> 5 * e + 4 * e * e"
    using rel
  proof
    assume h: "\<bar>x - t\<bar> \<le> 4 * e * t \<and> \<bar>y - 1 / t\<bar> \<le> e * (1 / t)"
    have "\<bar>dx\<bar> \<le> 4 * e"
      using h t by (simp add: dxa pos_divide_le_eq)
    moreover have "\<bar>dy\<bar> \<le> e"
      using h t by (simp add: dya pos_le_divide_eq [symmetric])
    ultimately show ?thesis
      unfolding Pd using e0 by (intro prod_near_one) simp_all
  next
    assume h: "\<bar>x - t\<bar> \<le> e * t \<and> \<bar>y - 1 / t\<bar> \<le> 4 * e * (1 / t)"
    have "\<bar>dx\<bar> \<le> e"
      using h t by (simp add: dxa pos_divide_le_eq)
    moreover have "\<bar>dy\<bar> \<le> 4 * e"
      using h t by (simp add: dya pos_le_divide_eq [symmetric])
    ultimately have "\<bar>(1 + dy) * (1 + dx) - 1\<bar> \<le> 5 * e + 4 * e * e"
      using e0 by (intro prod_near_one) simp_all
    then show ?thesis by (simp add: Pd mult.commute)
  qed
  have ee: "e * e \<le> e / 16"
    using e0 e16 by (simp add: mult_left_mono)
  have near': "\<bar>P - 1\<bar> \<le> 21 / 4 * e"
    using near ee by linarith
  have P_lo: "1 / 2 < P" and P_hi: "P < 3 / 2"
    using near' e16 by linarith+
  have Ppos: "0 < P" using P_lo by linarith
  have "(2::rat) powi emin F \<le> 2 powi (- 1)"
    using em by (intro power_int_increasing) (simp_all add: emin_def)
  then have "2 powi emin F \<le> P" using P_lo by simp
  with Ppos have rP: "\<bar>round_mag F P - P\<bar> \<le> e * P"
    unfolding e_def by (rule round_mag_normal)
  have "e * P \<le> e * (3 / 2)"
    using P_hi e0 by (intro mult_left_mono) simp_all
  with rP near' have fin: "\<bar>round_mag F P - 1\<bar> \<le> 27 / 4 * e"
    by linarith
  have e8: "(2::rat) powi (3 - int (prec F)) = 8 * e"
  proof -
    have "(2::rat) powi (3 + - int (prec F)) = 2 powi 3 * e"
      unfolding e_def by (rule two_powi_add)
    then show ?thesis by simp
  qed
  have M2: "(2::rat) \<le> 2 powi (emax F + 1)"
  proof -
    have "(2::rat) powi 1 \<le> 2 powi (emax F + 1)"
      using em by (intro power_int_increasing) simp_all
    then show ?thesis by simp
  qed
  show "0 < round_mag F t * round_mag F (1 / t)"
    using Ppos by (simp add: P_def x_def y_def)
  show "0 < round_mag F (round_mag F t * round_mag F (1 / t))"
    using fin e16 unfolding P_def x_def y_def by linarith
  show "round_mag F (round_mag F t * round_mag F (1 / t)) < 2 powi (emax F + 1)"
    using fin e16 M2 unfolding P_def x_def y_def by linarith
  show "\<bar>round_mag F (round_mag F t * round_mag F (1 / t)) - 1\<bar> \<le> 2 powi (3 - int (prec F))"
    using fin e0 unfolding e8 P_def x_def y_def by linarith
qed

text \<open>
  For evaluation the overflow test of \<open>fround\<close> compares exponents instead of forming
  \<open>2 ^ (emax + 1)\<close>.
\<close>

lemma fround_code [code]:
  "fround F s q =
     (if q = 0 then zero_of s
      else let r = round_mag F \<bar>q\<bar>
           in if r = 0 then zero_of (q < 0)
              else if emax F < flog2 r then inf_of (q < 0)
              else Finite (if q < 0 then - r else r))"
proof -
  have nn: "0 \<le> round_mag F \<bar>q\<bar>" by (rule round_mag_nonneg) simp
  have "2 powi (emax F + 1) \<le> r \<longleftrightarrow> emax F < flog2 r" if "0 < r" for r :: rat
  proof
    assume "2 powi (emax F + 1) \<le> r"
    with that have "emax F + 1 \<le> flog2 r" by (rule flog2_ge)
    then show "emax F < flog2 r" by simp
  next
    assume "emax F < flog2 r"
    then have "(2::rat) powi (emax F + 1) \<le> 2 powi flog2 r"
      by (intro power_int_increasing) simp_all
    with flog2_bounds(1) [OF that] show "2 powi (emax F + 1) \<le> r" by simp
  qed
  moreover have "\<not> (2::rat) powi (emax F + 1) \<le> 0"
    by (simp add: not_le)
  ultimately show ?thesis
    using nn by (cases "round_mag F \<bar>q\<bar> = 0") (simp_all add: fround_def Let_def)
qed

subsection \<open>The ratio channels\<close>

text \<open>
  Claim C1. On a raster whose bands \<open>vv\<close> and \<open>vh\<close> have the same shape, cell 16 returns,
  and in the raster it leaves every pixel of \<open>vh_vv\<close> whose denominator \<open>vv\<close> is not a
  zero is the floating-point quotient \<open>vh / vv\<close> of the two backscatter pixels, and
  every pixel of \<open>vv_vh\<close> whose denominator \<open>vh\<close> is not a zero is the quotient
  \<open>vv / vh\<close>. Equality is identity of the stored values (a NaN quotient is stored as
  NaN).
\<close>

theorem ratio_channels_are_quotients:
  assumes "raster ''vv'' = Some vv" "raster ''vh'' = Some vh" "length vv = length vh"
  shows "\<exists>s' vh_vv vv_vh.
           cell16 N raster = Inr s' \<and>
           s' ''vh_vv'' = Some vh_vv \<and> s' ''vv_vh'' = Some vv_vh \<and>
           length vh_vv = length vv \<and> length vv_vh = length vv \<and>
           (\<forall>i<length vv.
              (\<not> is_zero (vv ! i) \<longrightarrow> vh_vv ! i = fdiv (fmt N) (vh ! i) (vv ! i)) \<and>
              (\<not> is_zero (vh ! i) \<longrightarrow> vv_vh ! i = fdiv (fmt N) (vv ! i) (vh ! i)))"
  using assms by (simp add: cell16_Inr decorated_bands)

text \<open>
  The theorem at \<open>raster_two\<close> in single precision: pixel 1 has \<open>vh = 1\<close> and \<open>vv = 41\<close>.
\<close>

theorem ratio_channels_witness:
  "raster_two ''vv'' = Some [Finite 2, Finite 41] \<and>
   raster_two ''vh'' = Some [Finite 1, Finite 1] \<and>
   (\<exists>s' vh_vv vv_vh.
      cell16 num32 raster_two = Inr s' \<and>
      s' ''vh_vv'' = Some vh_vv \<and> s' ''vv_vh'' = Some vv_vh \<and>
      vh_vv ! 1 = fdiv binary32 (Finite 1) (Finite 41) \<and>
      vv_vh ! 1 = fdiv binary32 (Finite 41) (Finite 1))"
proof -
  have len: "length [Finite 2, Finite 41] = length [Finite 1, Finite (1::rat)]" by simp
  from ratio_channels_are_quotients [OF raster_two_bands len, of num32]
  obtain s' a b where run: "cell16 num32 raster_two = Inr s'"
    and a: "s' ''vh_vv'' = Some a" and b: "s' ''vv_vh'' = Some b"
    and px: "\<forall>i<length [Finite 2, Finite 41].
              (\<not> is_zero ([Finite 2, Finite 41] ! i) \<longrightarrow>
                 a ! i = fdiv (fmt num32) ([Finite 1, Finite 1] ! i) ([Finite 2, Finite 41] ! i)) \<and>
              (\<not> is_zero ([Finite 1, Finite 1] ! i) \<longrightarrow>
                 b ! i = fdiv (fmt num32) ([Finite 2, Finite 41] ! i) ([Finite 1, Finite 1] ! i))"
    by blast
  from px have "a ! 1 = fdiv binary32 (Finite 1) (Finite 41)"
    and "b ! 1 = fdiv binary32 (Finite 41) (Finite 1)"
    by (simp_all add: is_zero_def num32_def)
  with raster_two_bands run a b show ?thesis by blast
qed

subsection \<open>The derived bands and the frame\<close>

text \<open>
  Claim C5, as amended: cell 16 stores exactly five derived bands, the two ratios
  \<open>vv_vh\<close> and \<open>vh_vv\<close> and the three normalised bands \<open>vv_r\<close>, \<open>vh_g\<close> and \<open>vhvv_b\<close>, and
  adds no other band: the names of the raster afterwards are the names before and
  these five, and on a raster that had none of them the cell adds five bands.
\<close>

theorem five_derived_bands:
  assumes "raster ''vv'' = Some vv" "raster ''vh'' = Some vh" "length vv = length vh"
  shows "\<exists>s'. cell16 N raster = Inr s' \<and>
           dom s' = dom raster \<union> {''vv_vh'', ''vh_vv'', ''vv_r'', ''vh_g'', ''vhvv_b''} \<and>
           (dom raster \<inter> {''vv_vh'', ''vh_vv'', ''vv_r'', ''vh_g'', ''vhvv_b''} = {} \<longrightarrow>
              new_bands raster (cell16 N raster) =
                {''vv_vh'', ''vh_vv'', ''vv_r'', ''vh_g'', ''vhvv_b''} \<and>
              card (new_bands raster (cell16 N raster)) = 5)"
proof -
  have run: "cell16 N raster = Inr (decorated N raster vv vh)"
    using assms(1,2) by (rule cell16_Inr)
  have five: "card {''vv_vh'', ''vh_vv'', ''vv_r'', ''vh_g'', ''vhvv_b''} = 5"
    by simp
  have nb: "new_bands raster (cell16 N raster) =
      {''vv_vh'', ''vh_vv'', ''vv_r'', ''vh_g'', ''vhvv_b''}"
    if "dom raster \<inter> {''vv_vh'', ''vh_vv'', ''vv_r'', ''vh_g'', ''vhvv_b''} = {}"
  proof -
    have "new_bands raster (cell16 N raster) =
        (dom raster \<union> {''vv_vh'', ''vh_vv'', ''vv_r'', ''vh_g'', ''vhvv_b''}) - dom raster"
      by (simp add: run new_bands_def dom_decorated)
    with that show ?thesis by (simp only: Un_Diff_fresh)
  qed
  show ?thesis
    using nb five by (simp add: run dom_decorated)
qed

theorem five_derived_bands_witness:
  "dom raster_zero \<inter> {''vv_vh'', ''vh_vv'', ''vv_r'', ''vh_g'', ''vhvv_b''} = {} \<and>
   new_bands raster_zero (cell16 num32 raster_zero) =
     {''vv_vh'', ''vh_vv'', ''vv_r'', ''vh_g'', ''vhvv_b''}"
proof -
  have len: "length [Finite 0, Finite 1] = length [Finite 1, Finite (1::rat)]" by simp
  have fresh: "dom raster_zero \<inter> {''vv_vh'', ''vh_vv'', ''vv_r'', ''vh_g'', ''vhvv_b''} = {}"
    by (simp add: raster_zero_def)
  from five_derived_bands [OF raster_zero_bands len, of num32] fresh show ?thesis by blast
qed

text \<open>
  The claim as stated, exactly three derived bands, fails on the raster \<open>raster_zero\<close>
  that holds only \<open>vv\<close> and \<open>vh\<close>: the cell adds five bands to it.
\<close>

theorem three_derived_bands_counterexample:
  "card (new_bands raster_zero (cell16 num32 raster_zero)) = 5 \<and>
   card (new_bands raster_zero (cell16 num32 raster_zero)) \<noteq> 3"
proof -
  have run: "cell16 num32 raster_zero =
      Inr (decorated num32 raster_zero [Finite 0, Finite 1] [Finite 1, Finite 1])"
    using raster_zero_bands by (rule cell16_Inr)
  have "new_bands raster_zero (cell16 num32 raster_zero) =
      {''vv_vh'', ''vh_vv'', ''vv_r'', ''vh_g'', ''vhvv_b''}"
  proof -
    have "new_bands raster_zero (cell16 num32 raster_zero) =
        (dom raster_zero \<union> {''vv_vh'', ''vh_vv'', ''vv_r'', ''vh_g'', ''vhvv_b''})
          - dom raster_zero"
      by (simp add: run new_bands_def dom_decorated)
    also have "dom raster_zero = {''vv'', ''vh''}"
      by (auto simp: raster_zero_def)
    finally show ?thesis by auto
  qed
  then show ?thesis by simp
qed

text \<open>
  Claim C7. Cell 16 decorates the raster without altering the originals: after its five
  assignments the bands \<open>vv\<close> and \<open>vh\<close> are the arrays that were loaded, so every pixel
  of them has its loaded value; indeed every band other than the five assigned ones
  is as it was.
\<close>

theorem original_bands_unchanged:
  assumes "raster ''vv'' = Some vv" "raster ''vh'' = Some vh" "length vv = length vh"
  shows "\<exists>s'. cell16 N raster = Inr s' \<and> s' ''vv'' = Some vv \<and> s' ''vh'' = Some vh \<and>
           (\<forall>name. name \<notin> {''vv_vh'', ''vh_vv'', ''vv_r'', ''vh_g'', ''vhvv_b''} \<longrightarrow>
              s' name = raster name)"
  using assms by (simp add: cell16_Inr decorated_other)

theorem original_bands_witness:
  "\<exists>s'. cell16 num32 raster_zero = Inr s' \<and>
        s' ''vv'' = Some [Finite 0, Finite 1] \<and> s' ''vh'' = Some [Finite 1, Finite 1]"
proof -
  have len: "length [Finite 0, Finite 1] = length [Finite 1, Finite (1::rat)]" by simp
  from original_bands_unchanged [OF raster_zero_bands len, of num32] show ?thesis by blast
qed

subsection \<open>Special values of the quotient\<close>

lemma fdiv_nan_den: "is_nan y \<Longrightarrow> fdiv F x y = NaN"
  by (simp add: fdiv_def)

lemma fdiv_zero_den:
  "is_zero y \<Longrightarrow>
   fdiv F x y = (if is_nan x \<or> is_zero x then NaN else inf_of (sign_bit x \<noteq> sign_bit y))"
  by (auto simp: fdiv_def is_zero_def is_nan_def is_inf_def)

text \<open>
  Claim C4, as amended. A pixel whose denominator is missing (NaN) has a NaN ratio. A
  pixel whose denominator is a zero has a NaN ratio only when its numerator is a zero
  or a NaN as well; for every other numerator the ratio is an infinity, with the sign
  of the numerator times that of the zero. This holds for both \<open>vh_vv\<close> and \<open>vv_vh\<close>, as
  the division of IEEE 754 has it.
\<close>

theorem ratio_special_values:
  assumes "raster ''vv'' = Some vv" "raster ''vh'' = Some vh" "length vv = length vh"
  shows "\<exists>s' vh_vv vv_vh.
           cell16 N raster = Inr s' \<and>
           s' ''vh_vv'' = Some vh_vv \<and> s' ''vv_vh'' = Some vv_vh \<and>
           (\<forall>i<length vv.
              (is_nan (vv ! i) \<longrightarrow> vh_vv ! i = NaN) \<and>
              (is_nan (vh ! i) \<longrightarrow> vv_vh ! i = NaN) \<and>
              (is_zero (vv ! i) \<longrightarrow>
                 vh_vv ! i = (if is_nan (vh ! i) \<or> is_zero (vh ! i) then NaN
                              else inf_of (sign_bit (vh ! i) \<noteq> sign_bit (vv ! i)))) \<and>
              (is_zero (vh ! i) \<longrightarrow>
                 vv_vh ! i = (if is_nan (vv ! i) \<or> is_zero (vv ! i) then NaN
                              else inf_of (sign_bit (vv ! i) \<noteq> sign_bit (vh ! i)))))"
  using assms by (simp add: cell16_Inr decorated_bands fdiv_nan_den fdiv_zero_den)

theorem ratio_special_values_witness:
  "\<exists>s' vh_vv. cell16 num32 raster_zero = Inr s' \<and> s' ''vh_vv'' = Some vh_vv \<and>
     is_zero (Finite 0) \<and> vh_vv ! 0 = PosInf"
proof -
  have len: "length [Finite 0, Finite 1] = length [Finite 1, Finite (1::rat)]" by simp
  from ratio_special_values [OF raster_zero_bands len, of num32]
  obtain s' a where run: "cell16 num32 raster_zero = Inr s'" and a: "s' ''vh_vv'' = Some a"
    and px: "\<forall>i<length [Finite 0, Finite (1::rat)].
       is_zero ([Finite 0, Finite 1] ! i) \<longrightarrow>
         a ! i = (if is_nan ([Finite 1, Finite 1] ! i) \<or> is_zero ([Finite 1, Finite 1] ! i) then NaN
                  else inf_of (sign_bit ([Finite 1, Finite 1] ! i) \<noteq> sign_bit ([Finite 0, Finite 1] ! i)))"
    by blast
  from px have "a ! 0 = PosInf"
    by (simp add: is_zero_def is_nan_def inf_of_def)
  with run a show ?thesis by (simp add: is_zero_def)
qed

text \<open>
  The claim as stated, a NaN for every zero denominator, fails at pixel 0 of
  \<open>raster_zero\<close>, where \<open>vh = 1\<close> and \<open>vv = 0\<close>: the stored ratio \<open>vh_vv\<close> is the positive
  infinity.
\<close>

theorem zero_denominator_counterexample:
  "is_zero (Finite 0) \<and>
   pixel (Inr raster_zero) ''vv'' 0 = Some (Finite 0) \<and>
   pixel (cell16 num32 raster_zero) ''vh_vv'' 0 = Some PosInf \<and>
   \<not> is_nan PosInf"
  by code_simp

subsection \<open>The normalised channels\<close>

text \<open>
  An infinite pixel enters every IEEE summation: the sum of a list that holds a number
  that is not finite is not finite, in whatever order the list is added. Then the mean
  is not finite either, and a pixel divided by it is a NaN or a zero.
\<close>

lemma fadd_nonfinite:
  "\<not> is_finite a \<or> \<not> is_finite b \<Longrightarrow> \<not> is_finite (fadd F a b)"
  by (auto simp: fadd_def is_finite_def is_nan_def is_inf_def)

lemma sum_of_nonfinite:
  "sum_of F xs r \<Longrightarrow> (\<exists>x\<in>set xs. \<not> is_finite x) \<longrightarrow> \<not> is_finite r"
proof (induction rule: sum_of.induct)
  case sum_nil
  show ?case by simp
next
  case (sum_one x)
  show ?case by simp
next
  case (sum_app xs a ys b)
  then show ?case by (auto simp: fadd_nonfinite)
next
  case (sum_perm xs a ys)
  from sum_perm.hyps(2) have "set ys = set xs" by (rule mset_eq_setD)
  with sum_perm.IH show ?case by simp
qed

lemma sum_of_foldl:
  "sum_of F ys acc \<Longrightarrow> sum_of F (ys @ xs) (foldl (fadd F) acc xs)"
proof (induction xs arbitrary: ys acc)
  case Nil
  then show ?case by simp
next
  case (Cons x xs)
  have "sum_of F (ys @ [x]) (fadd F acc x)"
    using Cons.prems sum_one by (rule sum_app)
  then have "sum_of F ((ys @ [x]) @ xs) (foldl (fadd F) (fadd F acc x) xs)"
    by (rule Cons.IH)
  then show ?case by simp
qed

lemma seq_sum_ieee: "ieee_sum F (seq_sum F)"
  unfolding ieee_sum_def seq_sum_def
  using sum_of_foldl [OF sum_nil] by simp

lemma fdiv_nonfinite_num: "\<not> is_finite x \<Longrightarrow> \<not> is_finite (fdiv F x y)"
  by (auto simp: fdiv_def is_finite_def is_nan_def is_inf_def inf_of_def)

lemma cast_nonfinite: "\<not> is_finite x \<Longrightarrow> \<not> is_finite (cast F x)"
  by (cases x) (simp_all add: cast_def is_finite_def is_nan_def is_inf_def)

lemma fdiv_by_nonfinite:
  "\<not> is_finite m \<Longrightarrow> is_nan (fdiv F x m) \<or> is_zero (fdiv F x m)"
  by (auto simp: fdiv_def is_finite_def is_nan_def is_inf_def is_zero_def zero_of_def)

lemma inf_enters_mean:
  assumes "ieee_sum F fsum" "\<exists>x\<in>set b. is_inf x"
  shows "\<not> is_finite (skipna_mean F fsum b)"
proof -
  let ?ys = "filter (\<lambda>x. \<not> is_nan x) b"
  from assms(2) have "\<exists>x\<in>set ?ys. \<not> is_finite x"
    by (auto simp: is_finite_def is_inf_def is_nan_def)
  moreover have "sum_of F ?ys (fsum ?ys)"
    using assms(1) by (simp add: ieee_sum_def)
  ultimately have "\<not> is_finite (fsum ?ys)"
    using sum_of_nonfinite by blast
  then show ?thesis
    by (simp add: skipna_mean_def Let_def cast_nonfinite fdiv_nonfinite_num)
qed

lemma normalised_with_inf:
  assumes "ieee_sum (fmt N) (xr_sum N)" "\<exists>x\<in>set b. is_inf x"
  shows "\<not> is_finite (skipna_mean (fmt N) (xr_sum N) b) \<and>
         (\<forall>i<length b. is_nan (da_div_scalar (fmt N) b (mean N b) ! i) \<or>
                       is_zero (da_div_scalar (fmt N) b (mean N b) ! i))"
  using inf_enters_mean [OF assms]
  by (simp add: da_div_scalar_def mean_def fdiv_by_nonfinite)

text \<open>
  The division of the mean is taken in double precision and cast: a single-precision
  sum of \<open>2 ^ 24\<close> over \<open>2 ^ 24 + 1\<close> pixels has the mean \<open>1 - 2 ^ (- 24)\<close>, although the
  count is not a single-precision number.
\<close>

lemma mean_division_in_double:
  "cast binary32 (fdiv (promote binary32) (Finite 16777216)
      (fp_of_nat (promote binary32) 16777217)) = Finite (16777215 / 16777216)"
  unfolding fp_of_nat_def of_nat_numeral by code_simp

text \<open>
  Claim C3, as amended. Every pixel of \<open>vv_r\<close>, \<open>vh_g\<close> and \<open>vhvv_b\<close> is the pixel of its
  source band (\<open>vv\<close>, \<open>vh\<close>, and the ratio \<open>vh_vv\<close>) divided by the mean of that band,
  where the mean is taken over the pixels that are not NaN: infinite pixels are not
  excluded from it. Whenever the library's summation is one of IEEE arithmetic, a band
  that holds an infinite pixel has a mean that is not finite, and every pixel of its
  normalised band is a NaN or a zero.
\<close>

theorem normalised_by_skipna_mean:
  assumes "raster ''vv'' = Some vv" "raster ''vh'' = Some vh" "length vv = length vh"
  shows "\<exists>s' vh_vv vv_r vh_g vhvv_b.
           cell16 N raster = Inr s' \<and> s' ''vh_vv'' = Some vh_vv \<and>
           s' ''vv_r'' = Some vv_r \<and> s' ''vh_g'' = Some vh_g \<and> s' ''vhvv_b'' = Some vhvv_b \<and>
           length vh_vv = length vv \<and>
           length vv_r = length vv \<and> length vh_g = length vv \<and> length vhvv_b = length vv \<and>
           (\<forall>i<length vv.
              vv_r ! i = fdiv (fmt N) (vv ! i) (skipna_mean (fmt N) (xr_sum N) vv) \<and>
              vh_g ! i = fdiv (fmt N) (vh ! i) (skipna_mean (fmt N) (xr_sum N) vh) \<and>
              vhvv_b ! i = fdiv (fmt N) (vh_vv ! i) (skipna_mean (fmt N) (xr_sum N) vh_vv)) \<and>
           (ieee_sum (fmt N) (xr_sum N) \<longrightarrow>
              ((\<exists>x\<in>set vv. is_inf x) \<longrightarrow>
                 \<not> is_finite (skipna_mean (fmt N) (xr_sum N) vv) \<and>
                 (\<forall>i<length vv. is_nan (vv_r ! i) \<or> is_zero (vv_r ! i))) \<and>
              ((\<exists>x\<in>set vh. is_inf x) \<longrightarrow>
                 \<not> is_finite (skipna_mean (fmt N) (xr_sum N) vh) \<and>
                 (\<forall>i<length vv. is_nan (vh_g ! i) \<or> is_zero (vh_g ! i))) \<and>
              ((\<exists>x\<in>set vh_vv. is_inf x) \<longrightarrow>
                 \<not> is_finite (skipna_mean (fmt N) (xr_sum N) vh_vv) \<and>
                 (\<forall>i<length vv. is_nan (vhvv_b ! i) \<or> is_zero (vhvv_b ! i))))"
proof -
  let ?F = "fmt N"
  define r where "r = map2 (fdiv ?F) vh vv"
  have lr: "length r = length vv"
    using assms(3) by (simp add: r_def)
  have run: "cell16 N raster = Inr (decorated N raster vv vh)"
    using assms(1,2) by (rule cell16_Inr)
  have px: "\<forall>i<length vv.
      da_div_scalar ?F vv (mean N vv) ! i = fdiv ?F (vv ! i) (skipna_mean ?F (xr_sum N) vv) \<and>
      da_div_scalar ?F vh (mean N vh) ! i = fdiv ?F (vh ! i) (skipna_mean ?F (xr_sum N) vh) \<and>
      da_div_scalar ?F r (mean N r) ! i = fdiv ?F (r ! i) (skipna_mean ?F (xr_sum N) r)"
    using assms(3) lr by (simp add: da_div_scalar_def mean_def)
  have inf: "\<not> is_finite (skipna_mean ?F (xr_sum N) b) \<and>
      (\<forall>i<length vv. is_nan (da_div_scalar ?F b (mean N b) ! i) \<or>
                     is_zero (da_div_scalar ?F b (mean N b) ! i))"
    if "ieee_sum ?F (xr_sum N)" "\<exists>x\<in>set b. is_inf x" "length b = length vv" for b
    using normalised_with_inf [OF that(1,2)] that(3) by simp
  show ?thesis
  proof (intro exI conjI)
    show "cell16 N raster = Inr (decorated N raster vv vh)" by (rule run)
    show "decorated N raster vv vh ''vh_vv'' = Some r"
      by (simp add: decorated_bands r_def)
    show "decorated N raster vv vh ''vv_r'' = Some (da_div_scalar ?F vv (mean N vv))"
      by (simp add: decorated_bands)
    show "decorated N raster vv vh ''vh_g'' = Some (da_div_scalar ?F vh (mean N vh))"
      by (simp add: decorated_bands)
    show "decorated N raster vv vh ''vhvv_b'' = Some (da_div_scalar ?F r (mean N r))"
      by (simp add: decorated_bands r_def)
    show "length r = length vv" by (rule lr)
    show "length (da_div_scalar ?F vv (mean N vv)) = length vv"
      by (simp add: da_div_scalar_def)
    show "length (da_div_scalar ?F vh (mean N vh)) = length vv"
      using assms(3) by (simp add: da_div_scalar_def)
    show "length (da_div_scalar ?F r (mean N r)) = length vv"
      using lr by (simp add: da_div_scalar_def)
    show "\<forall>i<length vv.
      da_div_scalar ?F vv (mean N vv) ! i = fdiv ?F (vv ! i) (skipna_mean ?F (xr_sum N) vv) \<and>
      da_div_scalar ?F vh (mean N vh) ! i = fdiv ?F (vh ! i) (skipna_mean ?F (xr_sum N) vh) \<and>
      da_div_scalar ?F r (mean N r) ! i = fdiv ?F (r ! i) (skipna_mean ?F (xr_sum N) r)"
      by (rule px)
    show "ieee_sum ?F (xr_sum N) \<longrightarrow>
      ((\<exists>x\<in>set vv. is_inf x) \<longrightarrow>
         \<not> is_finite (skipna_mean ?F (xr_sum N) vv) \<and>
         (\<forall>i<length vv. is_nan (da_div_scalar ?F vv (mean N vv) ! i) \<or>
                        is_zero (da_div_scalar ?F vv (mean N vv) ! i))) \<and>
      ((\<exists>x\<in>set vh. is_inf x) \<longrightarrow>
         \<not> is_finite (skipna_mean ?F (xr_sum N) vh) \<and>
         (\<forall>i<length vv. is_nan (da_div_scalar ?F vh (mean N vh) ! i) \<or>
                        is_zero (da_div_scalar ?F vh (mean N vh) ! i))) \<and>
      ((\<exists>x\<in>set r. is_inf x) \<longrightarrow>
         \<not> is_finite (skipna_mean ?F (xr_sum N) r) \<and>
         (\<forall>i<length vv. is_nan (da_div_scalar ?F r (mean N r) ! i) \<or>
                        is_zero (da_div_scalar ?F r (mean N r) ! i)))"
      using inf [OF _ _ refl] inf [OF _ _ assms(3) [symmetric]] inf [OF _ _ lr] by blast
  qed
qed

text \<open>
  The theorem on \<open>raster_zero\<close> with sequential summation: the ratio band \<open>vh_vv\<close> holds
  the infinite pixel \<open>1 / 0\<close>.
\<close>

lemma raster_zero_inf_pixel:
  "pixel (cell16 num32 raster_zero) ''vh_vv'' 0 = Some PosInf"
  by code_simp

theorem normalised_witness:
  "ieee_sum binary32 (seq_sum binary32) \<and>
   (\<exists>s' vh_vv vhvv_b.
     cell16 num32 raster_zero = Inr s' \<and> s' ''vh_vv'' = Some vh_vv \<and>
     s' ''vhvv_b'' = Some vhvv_b \<and>
     vhvv_b ! 1 = fdiv binary32 (vh_vv ! 1) (skipna_mean binary32 (seq_sum binary32) vh_vv) \<and>
     vh_vv ! 0 = PosInf \<and>
     \<not> is_finite (skipna_mean binary32 (seq_sum binary32) vh_vv) \<and>
     (is_nan (vhvv_b ! 1) \<or> is_zero (vhvv_b ! 1)))"
proof -
  have len: "length [Finite 0, Finite 1] = length [Finite 1, Finite (1::rat)]" by simp
  have ieee: "ieee_sum (fmt num32) (xr_sum num32)"
    by (simp add: num32_def seq_sum_ieee)
  from normalised_by_skipna_mean [OF raster_zero_bands len, of num32]
  obtain s' a b where run: "cell16 num32 raster_zero = Inr s'"
    and a: "s' ''vh_vv'' = Some a" and b: "s' ''vhvv_b'' = Some b"
    and la: "length a = 2"
    and px: "\<forall>i<length [Finite 0, Finite (1::rat)].
       b ! i = fdiv (fmt num32) (a ! i) (skipna_mean (fmt num32) (xr_sum num32) a)"
    and inf: "ieee_sum (fmt num32) (xr_sum num32) \<longrightarrow>
       ((\<exists>x\<in>set a. is_inf x) \<longrightarrow>
         \<not> is_finite (skipna_mean (fmt num32) (xr_sum num32) a) \<and>
         (\<forall>i<length [Finite 0, Finite (1::rat)]. is_nan (b ! i) \<or> is_zero (b ! i)))"
    by auto
  have a0: "a ! 0 = PosInf"
    using raster_zero_inf_pixel pixel_Inr [of s' "''vh_vv''" a 0] a la by (simp add: run)
  have "a ! 0 \<in> set a" using la by (intro nth_mem) simp
  then have ex: "\<exists>x\<in>set a. is_inf x"
    unfolding a0 by (auto simp: is_inf_def)
  from inf ieee ex have nf: "\<not> is_finite (skipna_mean (fmt num32) (xr_sum num32) a)"
    and z: "\<forall>i<length [Finite 0, Finite (1::rat)]. is_nan (b ! i) \<or> is_zero (b ! i)"
    by blast+
  from z have z1: "is_nan (b ! 1) \<or> is_zero (b ! 1)" by simp
  from px have p1: "b ! 1 = fdiv binary32 (a ! 1) (skipna_mean binary32 (seq_sum binary32) a)"
    by (simp add: num32_def)
  from nf have nf': "\<not> is_finite (skipna_mean binary32 (seq_sum binary32) a)"
    by (simp add: num32_def)
  show ?thesis
    using run a b p1 a0 nf' z1 seq_sum_ieee [of binary32] by blast
qed

text \<open>
  The claim as stated, a mean over the finite pixels only, fails on \<open>raster_zero\<close>: its
  ratio band \<open>vh_vv\<close> is \<open>[+infinity, 1]\<close>, the mean over its finite pixels is 1 and would
  make pixel 1 of \<open>vhvv_b\<close> equal to \<open>1 / 1 = 1\<close>, but the mean that skips only NaN is
  infinite and the stored pixel is \<open>1 / infinity = 0\<close>.
\<close>

theorem finite_mean_counterexample:
  "pixel (cell16 num32 raster_zero) ''vh_vv'' 0 = Some PosInf \<and>
   pixel (cell16 num32 raster_zero) ''vh_vv'' 1 = Some (Finite 1) \<and>
   pixel (cell16 num32 raster_zero) ''vhvv_b'' 1 = Some (Finite 0) \<and>
   fdiv binary32 (Finite 1) (finite_mean binary32 (seq_sum binary32) [PosInf, Finite 1])
     = Finite 1"
  by code_simp

subsection \<open>The two composites\<close>

lemma nan_normalised_Inr:
  "s' band = Some a \<Longrightarrow>
   nan_normalised N band s' = Inr (da_div_scalar (fmt N) a (nanmean N a))"
  by (simp add: nan_normalised_def getattr_def bnd_def)

lemma same_summation_means: "xr_sum N = np_sum N \<Longrightarrow> nanmean N xs = mean N xs"
  by (simp add: nanmean_def mean_def)

text \<open>
  Claim C9. The two constructions of the composite compute the same channels: when
  the nan-mean of cell 22 and the skip-NaN mean of cell 16 agree on the three source
  bands \<open>vv\<close>, \<open>vh\<close> and \<open>vh_vv\<close> of the decorated raster, cell 22 returns and \<open>red_arr\<close>,
  \<open>green_arr\<close> and \<open>blue_arr\<close> are the stored arrays \<open>vv_r\<close>, \<open>vh_g\<close> and \<open>vhvv_b\<close>, hence
  equal to them at every pixel. The two means agree whenever the two libraries add in
  the same order (\<open>same_summation_means\<close>).
\<close>

theorem composites_agree:
  assumes run: "cell16 N raster = Inr s'"
    and bands: "s' ''vv'' = Some vv" "s' ''vh'' = Some vh" "s' ''vh_vv'' = Some vh_vv"
    and agree: "nanmean N vv = mean N vv" "nanmean N vh = mean N vh"
      "nanmean N vh_vv = mean N vh_vv"
  shows "\<exists>c. cell22 N s' = Inr c \<and>
           s' ''vv_r'' = Some (red_arr c) \<and>
           s' ''vh_g'' = Some (green_arr c) \<and>
           s' ''vhvv_b'' = Some (blue_arr c)"
proof -
  from cell16_InrD [OF run] obtain vv0 vh0
    where in0: "raster ''vv'' = Some vv0" "raster ''vh'' = Some vh0"
    by blast
  from cell16_Inr [OF in0, of N] run have s': "s' = decorated N raster vv0 vh0"
    by simp
  have "vv = vv0" "vh = vh0"
    using bands(1,2) in0(1,2) by (simp_all add: s' decorated_other)
  moreover have "vh_vv = map2 (fdiv (fmt N)) vh0 vv0"
    using bands(3) by (simp add: s' decorated_bands)
  ultimately show ?thesis
    using bands agree
    by (simp add: cell22_def nan_normalised_Inr bnd_def s' decorated_bands)
qed

theorem composites_agree_witness:
  "\<exists>s' c. cell16 num32 raster_two = Inr s' \<and> cell22 num32 s' = Inr c \<and>
     s' ''vv_r'' = Some (red_arr c) \<and> s' ''vh_g'' = Some (green_arr c) \<and>
     s' ''vhvv_b'' = Some (blue_arr c)"
proof -
  have run: "cell16 num32 raster_two =
      Inr (decorated num32 raster_two [Finite 2, Finite 41] [Finite 1, Finite 1])"
    using raster_two_bands by (rule cell16_Inr)
  have same: "xr_sum num32 = np_sum num32" by (simp add: num32_def)
  have vv: "decorated num32 raster_two [Finite 2, Finite 41] [Finite 1, Finite 1] ''vv''
      = Some [Finite 2, Finite 41]"
    and vh: "decorated num32 raster_two [Finite 2, Finite 41] [Finite 1, Finite 1] ''vh''
      = Some [Finite 1, Finite 1]"
    by (simp_all add: decorated_other raster_two_bands)
  from composites_agree [OF run vv vh decorated_bands(2)
      same_summation_means [OF same] same_summation_means [OF same]
      same_summation_means [OF same]] run
  show ?thesis by blast
qed

subsection \<open>The sorted query result\<close>





subsection \<open>The two index accesses\<close>






subsection \<open>Errors\<close>

text \<open>
  The run of the notebook, step by step: it ends with the error \<open>e\<close> exactly when one of
  its steps raises \<open>e\<close> after all the steps before it have returned, and it returns a
  workspace exactly when every step has returned.
\<close>

lemma notebook_Inl_iff:
  "notebook dc plot N = Inl e \<longleftrightarrow>
     find_datasets dc = Inl e \<or>
     (\<exists>found. find_datasets dc = Inr found \<and>
      (cell5 found = Inl e \<or>
       (\<exists>sd sm. cell5 found = Inr (sd, sm) \<and>
        (load dc = Inl e \<or>
         (\<exists>raster. load dc = Inr raster \<and>
          (cell9 sd = Inl e \<or>
           (\<exists>sel la lo dt. cell9 sd = Inr (sel, la, lo, dt) \<and>
            (cell10 la lo = Inl e \<or>
             (\<exists>lat lon. cell10 la lo = Inr (lat, lon) \<and>
              (plot ''display_map'' = Inl e \<or>
               plot ''display_map'' = Inr () \<and>
               (cell16 N raster = Inl e \<or>
                 (\<exists>s'. cell16 N raster = Inr s' \<and>
                  (plot ''vh_g'' = Inl e \<or>
                   plot ''vh_g'' = Inr () \<and>
                   (plot ''vv_r'' = Inl e \<or>
                     plot ''vv_r'' = Inr () \<and>
                     (plot ''vh_vv'' = Inl e \<or>
                       plot ''vh_vv'' = Inr () \<and>
                       (plot ''method 1'' = Inl e \<or>
                         plot ''method 1'' = Inr () \<and>
                         (cell22 N s' = Inl e \<or>
                           (\<exists>c. cell22 N s' = Inr c \<and>
                            (plot ''method 2'' = Inl e)))))))))))))))))))"
  by (auto simp: notebook_def bnd_def split: sum.splits prod.splits)

lemma notebook_Inr_iff:
  "notebook dc plot N = Inr w \<longleftrightarrow>
     (\<exists>found sd sm raster sel la lo dt lat lon s' c.
        find_datasets dc = Inr found \<and> cell5 found = Inr (sd, sm) \<and>
        load dc = Inr raster \<and> cell9 sd = Inr (sel, la, lo, dt) \<and>
        cell10 la lo = Inr (lat, lon) \<and> plot ''display_map'' = Inr () \<and>
        cell16 N raster = Inr s' \<and> plot ''vh_g'' = Inr () \<and> plot ''vv_r'' = Inr () \<and>
        plot ''vh_vv'' = Inr () \<and> plot ''method 1'' = Inr () \<and>
        cell22 N s' = Inr c \<and> plot ''method 2'' = Inr () \<and>
        w = \<lparr>senti_datasets = sd, sample = sm, s1 = s', selected_id = sel,
             latitude = lat, longitude = lon, composite_arr = c\<rparr>)"
  by (auto simp: notebook_def bnd_def split: sum.splits prod.splits)

text \<open>
  Claim C8. The notebook handles no error of its own. An error raised by the query or
  by the load is the result of the whole run, unchanged, and so is an error raised by
  cell 16. In general the run ends with an error exactly when one of its steps (an
  external call or a cell) raises that error after the steps before it have returned:
  no error is caught, replaced or recovered from, and no step runs after a failed
  one. The run returns only when every step has returned.
\<close>

theorem errors_propagate:
  "(find_datasets dc = Inl e \<longrightarrow> notebook dc plot N = Inl e) \<and>
   (find_datasets dc = Inr found \<and> cell5 found = Inr (sd, sm) \<and> load dc = Inl e \<longrightarrow>
      notebook dc plot N = Inl e) \<and>
   (find_datasets dc = Inr found \<and> cell5 found = Inr (sd, sm) \<and> load dc = Inr raster \<and>
    cell9 sd = Inr (sel, la, lo, dt) \<and> cell10 la lo = Inr (lat, lon) \<and>
    plot ''display_map'' = Inr () \<and> cell16 N raster = Inl e \<longrightarrow>
      notebook dc plot N = Inl e) \<and>
   (notebook dc plot N = Inl e \<longleftrightarrow>
     find_datasets dc = Inl e \<or>
     (\<exists>found. find_datasets dc = Inr found \<and>
      (cell5 found = Inl e \<or>
       (\<exists>sd sm. cell5 found = Inr (sd, sm) \<and>
        (load dc = Inl e \<or>
         (\<exists>raster. load dc = Inr raster \<and>
          (cell9 sd = Inl e \<or>
           (\<exists>sel la lo dt. cell9 sd = Inr (sel, la, lo, dt) \<and>
            (cell10 la lo = Inl e \<or>
             (\<exists>lat lon. cell10 la lo = Inr (lat, lon) \<and>
              (plot ''display_map'' = Inl e \<or>
               plot ''display_map'' = Inr () \<and>
               (cell16 N raster = Inl e \<or>
                 (\<exists>s'. cell16 N raster = Inr s' \<and>
                  (plot ''vh_g'' = Inl e \<or>
                   plot ''vh_g'' = Inr () \<and>
                   (plot ''vv_r'' = Inl e \<or>
                     plot ''vv_r'' = Inr () \<and>
                     (plot ''vh_vv'' = Inl e \<or>
                       plot ''vh_vv'' = Inr () \<and>
                       (plot ''method 1'' = Inl e \<or>
                         plot ''method 1'' = Inr () \<and>
                         (cell22 N s' = Inl e \<or>
                           (\<exists>c. cell22 N s' = Inr c \<and>
                            (plot ''method 2'' = Inl e)))))))))))))))))))) \<and>
   (notebook dc plot N = Inr w \<longleftrightarrow>
     (\<exists>found sd sm raster sel la lo dt lat lon s' c.
        find_datasets dc = Inr found \<and> cell5 found = Inr (sd, sm) \<and>
        load dc = Inr raster \<and> cell9 sd = Inr (sel, la, lo, dt) \<and>
        cell10 la lo = Inr (lat, lon) \<and> plot ''display_map'' = Inr () \<and>
        cell16 N raster = Inr s' \<and> plot ''vh_g'' = Inr () \<and> plot ''vv_r'' = Inr () \<and>
        plot ''vh_vv'' = Inr () \<and> plot ''method 1'' = Inr () \<and>
        cell22 N s' = Inr c \<and> plot ''method 2'' = Inr () \<and>
        w = \<lparr>senti_datasets = sd, sample = sm, s1 = s', selected_id = sel,
             latitude = lat, longitude = lon, composite_arr = c\<rparr>))"
proof (intro conjI impI)
  show "notebook dc plot N = Inl e" if "find_datasets dc = Inl e"
    using that by (simp add: notebook_def bnd_def)
  show "notebook dc plot N = Inl e"
    if "find_datasets dc = Inr found \<and> cell5 found = Inr (sd, sm) \<and> load dc = Inl e"
    using that by (simp add: notebook_def bnd_def)
  show "notebook dc plot N = Inl e"
    if "find_datasets dc = Inr found \<and> cell5 found = Inr (sd, sm) \<and> load dc = Inr raster \<and>
        cell9 sd = Inr (sel, la, lo, dt) \<and> cell10 la lo = Inr (lat, lon) \<and>
        plot ''display_map'' = Inr () \<and> cell16 N raster = Inl e"
    using that by (simp add: notebook_def bnd_def)
qed (rule notebook_Inl_iff, rule notebook_Inr_iff)

text \<open>
  Three failing runs: the load raises; the load returns a raster without bands, and
  cell 16 raises the attribute error of \<^verbatim>\<open>s1.vv\<close>; the map display raises. Each run ends
  with the error that was raised.
\<close>

lemma cell5_found101: "cell5 found101 = Inr (found101, ds_a)"
  by code_simp

lemma cell9_found101:
  "cell9 found101 =
     Inr ([ds_a], JObj [(''begin'', JNum (-36)), (''end'', JNum (-35))],
          JObj [(''begin'', JNum 148), (''end'', JNum 149)], JStr ''2020-01-06T19:17:03Z'')"
  by code_simp

lemma cell10_found101:
  "cell10 (JObj [(''begin'', JNum (-36)), (''end'', JNum (-35))])
          (JObj [(''begin'', JNum 148), (''end'', JNum 149)]) =
     Inr ((JNum (-36), JNum (-35)), (JNum 148, JNum 149))"
  by code_simp

lemma cell16_empty: "cell16 N Map.empty = Inl (AttributeError ''vv'')"
  by (simp add: cell16_def set_ratio_def getattr_def bnd_def)

theorem errors_propagate_witness:
  "notebook dc_load_fails plot_ok num32 = Inl (LibraryError ''dataset not found'') \<and>
   notebook dc_empty plot_ok num32 = Inl (AttributeError ''vv'') \<and>
   notebook dc_two plot_map_fails num32 = Inl (LibraryError ''no display'')"
proof -
  have "notebook dc_load_fails plot_ok num32 = Inl (LibraryError ''dataset not found'')"
    using errors_propagate [of dc_load_fails "LibraryError ''dataset not found''" plot_ok
        num32 found101 found101 ds_a] cell5_found101
    by (simp add: dc_load_fails_def)
  moreover have "notebook dc_empty plot_ok num32 = Inl (AttributeError ''vv'')"
    using errors_propagate [of dc_empty "AttributeError ''vv''" plot_ok num32 found101
        found101 ds_a Map.empty "[ds_a]"
        "JObj [(''begin'', JNum (-36)), (''end'', JNum (-35))]"
        "JObj [(''begin'', JNum 148), (''end'', JNum 149)]"
        "JStr ''2020-01-06T19:17:03Z''" "(JNum (-36), JNum (-35))" "(JNum 148, JNum 149)"]
      cell5_found101 cell9_found101 cell10_found101 cell16_empty [of num32]
    by (simp add: dc_empty_def plot_ok_def)
  moreover have "notebook dc_two plot_map_fails num32 = Inl (LibraryError ''no display'')"
  proof -
    have "find_datasets dc_two = Inr found101" "load dc_two = Inr raster_two"
      by (simp_all add: dc_two_def)
    moreover have "plot_map_fails ''display_map'' = Inl (LibraryError ''no display'')"
      by (simp add: plot_map_fails_def)
    ultimately show ?thesis
      using errors_propagate [of dc_two "LibraryError ''no display''" plot_map_fails num32]
        cell5_found101 cell9_found101 cell10_found101
      by auto
  qed
  ultimately show ?thesis by blast
qed

subsection \<open>The product of the two ratios\<close>

lemma fdiv_fmul_near_one:
  assumes vf: "valid_format F"
    and fx: "is_finite (fdiv F x y)" "\<not> is_zero (fdiv F x y)"
    and fy: "is_finite (fdiv F y x)" "\<not> is_zero (fdiv F y x)"
  shows "\<exists>r. fmul F (fdiv F x y) (fdiv F y x) = Finite r \<and>
           \<bar>r - 1\<bar> \<le> 2 powi (3 - int (prec F))"
proof -
  from fdiv_finite_nonzero [OF fx] obtain a b
    where x: "x = Finite a" and y: "y = Finite b" and a: "a \<noteq> 0" and b: "b \<noteq> 0"
      and dxy: "fdiv F x y = fround F (sign_bit x \<noteq> sign_bit y) (a / b)"
    by blast
  from fdiv_finite_nonzero [OF fy] x y
  have dyx: "fdiv F y x = fround F (sign_bit y \<noteq> sign_bit x) (b / a)"
    by auto
  define t where "t = \<bar>a / b\<bar>"
  have t: "0 < t" using a b by (simp add: t_def)
  have it: "\<bar>b / a\<bar> = 1 / t" by (simp add: t_def)
  define X where "X = round_mag F t"
  define Y where "Y = round_mag F (1 / t)"
  have X: "0 < X" "X < 2 powi (emax F + 1)"
    and qx: "fdiv F x y = Finite (if a / b < 0 then - X else X)"
    using fround_finite_nonzero [of F "sign_bit x \<noteq> sign_bit y" "a / b"] fx
    unfolding dxy X_def t_def by blast+
  have Y: "0 < Y" "Y < 2 powi (emax F + 1)"
    and qy: "fdiv F y x = Finite (if b / a < 0 then - Y else Y)"
    using fround_finite_nonzero [of F "sign_bit y \<noteq> sign_bit x" "b / a"] fy
    unfolding dyx Y_def it [symmetric] by blast+
  have sg: "(b / a < 0) = (a / b < 0)"
    by (simp add: divide_less_0_iff) linarith
  have prod: "(if a / b < 0 then - X else X) * (if b / a < 0 then - Y else Y) = X * Y"
    by (simp add: sg)
  note core = round_product_near_one [OF vf t X(2) [unfolded X_def] Y(2) [unfolded Y_def],
      folded X_def Y_def]
  have neg: "\<not> X < 0" "\<not> Y < 0"
    using X(1) Y(1) by simp_all
  have "fmul F (fdiv F x y) (fdiv F y x) = fround F False (X * Y)"
    unfolding qx qy
    using X(1) Y(1) neg by (simp add: fmul_def is_nan_def is_inf_def prod sg)
  also have "\<dots> = Finite (round_mag F (X * Y))"
    using core(1-3) by (rule fround_pos)
  finally show ?thesis using core(4) by blast
qed

text \<open>
  Claim C2, as amended. For every pixel where both ratio channels \<open>vh_vv\<close> and \<open>vv_vh\<close>
  are finite and nonzero, their floating-point product is a finite number that differs
  from 1 by at most \<open>2 ^ (3 - prec)\<close>, eight units of rounding of the raster's format; it
  need not be 1.
\<close>

theorem ratio_product_near_one:
  assumes "raster ''vv'' = Some vv" "raster ''vh'' = Some vh" "length vv = length vh"
    and "valid_format (fmt N)"
  shows "\<exists>s' vh_vv vv_vh.
           cell16 N raster = Inr s' \<and>
           s' ''vh_vv'' = Some vh_vv \<and> s' ''vv_vh'' = Some vv_vh \<and>
           length vh_vv = length vv \<and> length vv_vh = length vv \<and>
           (\<forall>i<length vv.
              is_finite (vh_vv ! i) \<and> \<not> is_zero (vh_vv ! i) \<and>
              is_finite (vv_vh ! i) \<and> \<not> is_zero (vv_vh ! i) \<longrightarrow>
              (\<exists>r. fmul (fmt N) (vh_vv ! i) (vv_vh ! i) = Finite r \<and>
                   \<bar>r - 1\<bar> \<le> 2 powi (3 - int (prec (fmt N)))))"
  using assms by (simp add: cell16_Inr decorated_bands fdiv_fmul_near_one)

text \<open>
  The theorem at pixel 1 of \<open>raster_two\<close> in single precision (\<open>prec = 24\<close>), where
  \<open>vh = 1\<close> and \<open>vv = 41\<close>.
\<close>

lemma raster_two_ratio_pixels:
  "pixel (cell16 num32 raster_two) ''vh_vv'' 1 = Some (Finite (3273603 / 134217728))"
  "pixel (cell16 num32 raster_two) ''vv_vh'' 1 = Some (Finite 41)"
  by code_simp+

theorem ratio_product_witness:
  "valid_format binary32 \<and>
   pixel (cell16 num32 raster_two) ''vh_vv'' 1 = Some (Finite (3273603 / 134217728)) \<and>
   pixel (cell16 num32 raster_two) ''vv_vh'' 1 = Some (Finite 41) \<and>
   (\<exists>r. fmul binary32 (Finite (3273603 / 134217728)) (Finite 41) = Finite r \<and>
        \<bar>r - 1\<bar> \<le> 2 powi (3 - 24))"
proof -
  have vf: "valid_format (fmt num32)"
    by (simp add: valid_format_def num32_def binary32_def)
  have len: "length [Finite 2, Finite 41] = length [Finite 1, Finite (1::rat)]" by simp
  from ratio_product_near_one [OF raster_two_bands len vf]
  obtain s' a b where run: "cell16 num32 raster_two = Inr s'"
    and a: "s' ''vh_vv'' = Some a" and b: "s' ''vv_vh'' = Some b"
    and la: "length a = 2" and lb: "length b = 2"
    and px: "\<forall>i<2. is_finite (a ! i) \<and> \<not> is_zero (a ! i) \<and>
               is_finite (b ! i) \<and> \<not> is_zero (b ! i) \<longrightarrow>
               (\<exists>r. fmul (fmt num32) (a ! i) (b ! i) = Finite r \<and>
                    \<bar>r - 1\<bar> \<le> 2 powi (3 - int (prec (fmt num32))))"
    by auto
  have a1: "a ! 1 = Finite (3273603 / 134217728)"
    using raster_two_ratio_pixels(1) pixel_Inr [of s' "''vh_vv''" a 1] a la by (simp add: run)
  have b1: "b ! 1 = Finite 41"
    using raster_two_ratio_pixels(2) pixel_Inr [of s' "''vv_vh''" b 1] b lb by (simp add: run)
  have "is_finite (a ! 1) \<and> \<not> is_zero (a ! 1) \<and> is_finite (b ! 1) \<and> \<not> is_zero (b ! 1)"
    unfolding a1 b1 by (simp add: is_finite_def is_zero_def is_nan_def is_inf_def)
  moreover have "(1::nat) < 2" by simp
  ultimately have "\<exists>r. fmul (fmt num32) (a ! 1) (b ! 1) = Finite r \<and>
      \<bar>r - 1\<bar> \<le> 2 powi (3 - int (prec (fmt num32)))"
    using px by blast
  then have "\<exists>r. fmul binary32 (Finite (3273603 / 134217728)) (Finite 41) = Finite r \<and>
      \<bar>r - 1\<bar> \<le> 2 powi (3 - 24)"
    unfolding a1 b1 by (simp add: num32_def binary32_def)
  with vf raster_two_ratio_pixels show ?thesis
    by (simp add: num32_def)
qed

text \<open>
  The claim as stated, a product equal to 1, fails at that pixel: \<open>vh_vv\<close> is \<open>1 / 41\<close>
  rounded to 24 bits, \<open>vv_vh\<close> is 41, both finite and nonzero, and their product rounds
  to \<open>1 - 2 ^ (- 24)\<close>. Double precision fares no better: for a pixel with \<open>vh = 1\<close> and
  \<open>vv = 49\<close> the quotient \<open>1 / 49\<close> rounded to 53 bits, times the quotient 49, rounds to
  \<open>1 - 2 ^ (- 53)\<close>.
\<close>

theorem ratio_product_counterexample:
  "pixel (Inr raster_two) ''vh'' 1 = Some (Finite 1) \<and>
   pixel (Inr raster_two) ''vv'' 1 = Some (Finite 41) \<and>
   pixel (cell16 num32 raster_two) ''vh_vv'' 1 = Some (Finite (3273603 / 134217728)) \<and>
   pixel (cell16 num32 raster_two) ''vv_vh'' 1 = Some (Finite 41) \<and>
   fmul binary32 (Finite (3273603 / 134217728)) (Finite 41) = Finite (16777215 / 16777216) \<and>
   fmul binary32 (Finite (3273603 / 134217728)) (Finite 41) \<noteq> Finite 1 \<and>
   fdiv binary64 (Finite 1) (Finite 49)
     = Finite (5882252574524729 / 288230376151711744) \<and>
   fdiv binary64 (Finite 49) (Finite 1) = Finite 49 \<and>
   fmul binary64 (Finite (5882252574524729 / 288230376151711744)) (Finite 49)
     = Finite (9007199254740991 / 9007199254740992) \<and>
   fmul binary64 (Finite (5882252574524729 / 288230376151711744)) (Finite 49) \<noteq> Finite 1"
  by code_simp

end
